theory Spec2Isabelle
  imports Complex_Main "HOL-Library.Word"
begin

unbundle bit_operations_syntax

section \<open>Arrays\<close>

text \<open>
  A numpy array is a shape and a flat buffer in row-major order. Images and coverage
  buffers hold 8-bit values (dtype uint8), heatmaps hold reals (dtype float32; rounding
  is outside the model).
\<close>

datatype 'a ndarray = NDArray (shape: "nat list") (elems: "'a list")

type_synonym image = "8 word ndarray"
type_synonym heatmap = "real ndarray"

text \<open>\<^verbatim>\<open>any(x < n for x in xs)\<close>\<close>

definition any_lt :: "nat \<Rightarrow> nat list \<Rightarrow> bool" where
  "any_lt n xs = list_ex (\<lambda>x. x < n) xs"

section \<open>The OpenCV operations the engine calls\<close>

text \<open>
  OpenCV is an external library. The operations whose pixel arithmetic the engine does
  not depend on are parameters of the model; what the engine relies on is the size of
  their results, which OpenCV documents: \<^verbatim>\<open>pyrDown\<close> gives
  \<open>((rows + 1) div 2, (cols + 1) div 2)\<close> and \<^verbatim>\<open>pyrUp\<close> gives \<open>(2 * rows, 2 * cols)\<close>.
\<close>

datatype tm_method = TM_SQDIFF_NORMED | TM_CCORR_NORMED | TM_CCOEFF_NORMED

record cv2 =
  pyrDown :: "image \<Rightarrow> image"
  pyrUp :: "image \<Rightarrow> image"
  matchTemplate :: "image \<Rightarrow> image \<Rightarrow> tm_method \<Rightarrow> heatmap"
  find_contour_boxes :: "image \<Rightarrow> (int \<times> int \<times> int \<times> int) list"
  cvtColor_BGR2GRAY :: "image \<Rightarrow> image"
  normalize_MINMAX :: "image \<Rightarrow> image"

fun pyr_down_shape :: "nat list \<Rightarrow> nat list" where
  "pyr_down_shape (h # w # rest) = ((h + 1) div 2) # ((w + 1) div 2) # rest"
| "pyr_down_shape sh = sh"

fun pyr_up_shape :: "nat list \<Rightarrow> nat list" where
  "pyr_up_shape (h # w # rest) = (2 * h) # (2 * w) # rest"
| "pyr_up_shape sh = sh"

definition cv2_sizes :: "cv2 \<Rightarrow> bool" where
  "cv2_sizes cv \<longleftrightarrow>
     (\<forall>im. shape (pyrDown cv im) = pyr_down_shape (shape im)) \<and>
     (\<forall>im. shape (pyrUp cv im) = pyr_up_shape (shape im))"

section \<open>Image pyramids\<close>

text \<open>
  \<^verbatim>\<open>_build_pyramid(image, levels)\<close>: the loop runs \<open>levels - 1\<close> times at most and
  leaves as soon as the last level built has a height or width below 20.
\<close>

fun build_pyramid_loop :: "cv2 \<Rightarrow> nat \<Rightarrow> image list \<Rightarrow> image list" where
  "build_pyramid_loop cv 0 pyramid = pyramid"
| "build_pyramid_loop cv (Suc n) pyramid =
     (if any_lt 20 (take 2 (shape (last pyramid))) then pyramid
      else build_pyramid_loop cv n (pyramid @ [pyrDown cv (last pyramid)]))"

definition build_pyramid :: "cv2 \<Rightarrow> image \<Rightarrow> int \<Rightarrow> image list" where
  "build_pyramid cv img levels = build_pyramid_loop cv (nat (levels - 1)) [img]"

text \<open>The number of levels the loop adds, as a function of the shape it starts from.\<close>

fun pyramid_steps :: "nat \<Rightarrow> nat list \<Rightarrow> nat" where
  "pyramid_steps 0 sh = 0"
| "pyramid_steps (Suc n) sh =
     (if any_lt 20 (take 2 sh) then 0 else Suc (pyramid_steps n (pyr_down_shape sh)))"

text \<open>
  The first precondition of \<^verbatim>\<open>_find_matches\<close>, as a predicate on shapes: the frame is at
  least as high and as wide as the template.
\<close>

definition dims_ge :: "nat list \<Rightarrow> nat list \<Rightarrow> bool" where
  "dims_ge a b \<longleftrightarrow> 2 \<le> length a \<and> 2 \<le> length b \<and> b ! 0 \<le> a ! 0 \<and> b ! 1 \<le> a ! 1"

text \<open>
  A stand-in for OpenCV with results of the documented sizes and no content (black
  images, an all-zero heatmap, no contours), for evaluating the model on concrete inputs.
\<close>

definition blank :: "nat list \<Rightarrow> 'a::zero ndarray" where
  "blank sh = NDArray sh (replicate (prod_list sh) 0)"

definition cv2_blank :: cv2 where
  "cv2_blank =
     \<lparr> pyrDown = (\<lambda>im. blank (pyr_down_shape (shape im))),
       pyrUp = (\<lambda>im. blank (pyr_up_shape (shape im))),
       matchTemplate = (\<lambda>im t m. blank [shape im ! 0 - shape t ! 0 + 1, shape im ! 1 - shape t ! 1 + 1]),
       find_contour_boxes = (\<lambda>m. []),
       cvtColor_BGR2GRAY = (\<lambda>im. blank (take 2 (shape im))),
       normalize_MINMAX = (\<lambda>im. im) \<rparr>"

section \<open>Errors, regions and match parameters\<close>

text \<open>Every exception the modelled code can raise is a value.\<close>

datatype error =
    ValueError string
  | TypeError
  | AttributeError
  | KeyError
  | IndexError
  | AssertionError
  | UnboundLocalError
  | ConfigurationError string
  | CvError
  | RuntimeError string
  | NoVideo

text \<open>
  Modelled from the spec: the class \<^verbatim>\<open>Region\<close> of \<^verbatim>\<open>_stbt/types.py\<close>, which is not among
  the sources. A region is an integer rectangle given by x, y, width and height, with
  right = x + width and bottom = y + height; \<^verbatim>\<open>Region.ALL\<close> is the region that
  \<^verbatim>\<open>Region.intersect\<close> leaves every region unchanged with; an unset region is \<open>None\<close>.
\<close>

datatype region = Region_ALL | Region (region_x: int) (region_y: int) (region_width: int) (region_height: int)

definition region_right :: "region \<Rightarrow> int" where
  "region_right r = region_x r + region_width r"

definition region_bottom :: "region \<Rightarrow> int" where
  "region_bottom r = region_y r + region_height r"

text \<open>
  Modelled from the spec: \<^verbatim>\<open>Region.from_extents\<close>, \<^verbatim>\<open>Region.translate\<close> and
  \<^verbatim>\<open>Region.extend\<close>, which moves the left and top edges by the given
  amounts and keeps the right and bottom edges.
\<close>

definition from_extents :: "int \<Rightarrow> int \<Rightarrow> int \<Rightarrow> int \<Rightarrow> region" where
  "from_extents x y right bottom = Region x y (right - x) (bottom - y)"

fun region_translate :: "region \<Rightarrow> int \<Rightarrow> int \<Rightarrow> region" where
  "region_translate Region_ALL dx dy = Region_ALL"
| "region_translate (Region x y w h) dx dy = Region (x + dx) (y + dy) w h"

fun region_extend :: "region \<Rightarrow> int \<Rightarrow> int \<Rightarrow> region" where
  "region_extend Region_ALL dx dy = Region_ALL"
| "region_extend (Region x y w h) dx dy = Region (x + dx) (y + dy) (w - dx) (h - dy)"

text \<open>
  Modelled from the spec: \<^verbatim>\<open>Region.intersect\<close>, the geometric intersection. The result
  is unset (\<open>None\<close>, "no region") when an operand is unset or when the rectangles share
  no pixel, as the comment in \<^verbatim>\<open>Mask.__init__\<close> says it can be.
\<close>

fun intersect :: "region option \<Rightarrow> region option \<Rightarrow> region option" where
  "intersect None b = None"
| "intersect a None = None"
| "intersect (Some Region_ALL) b = b"
| "intersect a (Some Region_ALL) = a"
| "intersect (Some (Region x y w h)) (Some (Region x' y' w' h')) =
     (let x0 = max x x'; y0 = max y y'; x1 = min (x + w) (x' + w'); y1 = min (y + h) (y' + h')
      in if x0 < x1 \<and> y0 < y1 then Some (from_extents x0 y0 x1 y1) else None)"

type_synonym position = "int \<times> int"

record match_parameters =
  match_method :: string
  match_threshold :: real
  confirm_method :: string
  confirm_threshold :: real
  erode_passes :: nat

text \<open>\<^verbatim>\<open>MatchParameters.__init__\<close>, with every argument given: the two enumerations are checked.\<close>

definition MatchParameters ::
  "string \<Rightarrow> real \<Rightarrow> string \<Rightarrow> real \<Rightarrow> nat \<Rightarrow> error + match_parameters" where
  "MatchParameters mm mt cm ct ep =
     (if mm \<notin> set [''sqdiff-normed'', ''ccorr-normed'', ''ccoeff-normed'']
      then Inl (ValueError ''Invalid match_method'')
      else if cm \<notin> set [''none'', ''absdiff'', ''normed-absdiff'']
      then Inl (ValueError ''Invalid confirm_method'')
      else Inr \<lparr> match_method = mm, match_threshold = mt, confirm_method = cm,
                 confirm_threshold = ct, erode_passes = ep \<rparr>)"

section \<open>Array operations\<close>

text \<open>
  Python's slice \<^verbatim>\<open>a[start:stop]\<close> on an axis of length \<open>n\<close>: negative indices count
  from the end, and both ends are clipped.
\<close>

definition slice_index :: "nat \<Rightarrow> int \<Rightarrow> nat" where
  "slice_index n i = (if i < 0 then nat (max 0 (int n + i)) else min (nat i) n)"

definition py_slice :: "nat \<Rightarrow> int \<Rightarrow> int \<Rightarrow> nat \<times> nat" where
  "py_slice n start stop =
     (let lo = slice_index n start; hi = slice_index n stop in (lo, max lo hi))"

text \<open>
  \<^verbatim>\<open>a[y0:y1, x0:x1]\<close> on an array of shape \<open>h # w # rest\<close>: the rows and columns of the
  slices, each pixel with all its channels.
\<close>

definition crop2d :: "'a ndarray \<Rightarrow> int \<times> int \<Rightarrow> int \<times> int \<Rightarrow> 'a ndarray" where
  "crop2d a ys xs =
     (let h = shape a ! 0; w = shape a ! 1; c = prod_list (drop 2 (shape a));
          (y0, y1) = py_slice h (fst ys) (snd ys);
          (x0, x1) = py_slice w (fst xs) (snd xs)
      in NDArray ((y1 - y0) # (x1 - x0) # drop 2 (shape a))
           (concat (map (\<lambda>y. take ((x1 - x0) * c) (drop ((y * w + x0) * c) (elems a))) [y0..<y1])))"

text \<open>
  Writing \<open>src\<close> through the view \<^verbatim>\<open>dst[y0:y1, x0:x1]\<close> of a two-dimensional array, as
  an OpenCV function given the view as its output does: when the view has the size of
  the result it is filled, otherwise OpenCV allocates a new array and \<open>dst\<close> is
  left as it was.
\<close>

definition write_view :: "'a ndarray \<Rightarrow> int \<times> int \<Rightarrow> int \<times> int \<Rightarrow> 'a ndarray \<Rightarrow> 'a ndarray" where
  "write_view dst ys xs src =
     (let h = shape dst ! 0; w = shape dst ! 1;
          (y0, y1) = py_slice h (fst ys) (snd ys);
          (x0, x1) = py_slice w (fst xs) (snd xs)
      in if shape src \<noteq> [y1 - y0, x1 - x0] then dst
         else NDArray (shape dst)
           (map (\<lambda>i. let y = i div w; x = i mod w
                      in if y0 \<le> y \<and> y < y1 \<and> x0 \<le> x \<and> x < x1
                         then elems src ! ((y - y0) * (x1 - x0) + (x - x0))
                         else elems dst ! i)
              [0..<length (elems dst)]))"

text \<open>
  \<^verbatim>\<open>cv2.minMaxLoc\<close>: the smallest and the largest value of a two-dimensional array,
  each with the first position (in row-major order) that holds it, as (x, y).
\<close>

fun first_min :: "real list \<Rightarrow> real \<times> nat" where
  "first_min [] = (0, 0)"
| "first_min [v] = (v, 0)"
| "first_min (v # vs) = (let (m, i) = first_min vs in if v \<le> m then (v, 0) else (m, Suc i))"

fun first_max :: "real list \<Rightarrow> real \<times> nat" where
  "first_max [] = (0, 0)"
| "first_max [v] = (v, 0)"
| "first_max (v # vs) = (let (m, i) = first_max vs in if m \<le> v then (v, 0) else (m, Suc i))"

definition minMaxLoc :: "heatmap \<Rightarrow> error + (real \<times> real \<times> position \<times> position)" where
  "minMaxLoc a =
     (if length (shape a) \<noteq> 2 \<or> elems a = [] then Inl CvError
      else let w = shape a ! 1; (mn, i) = first_min (elems a); (mx, j) = first_max (elems a)
           in Inr (mn, mx, (int (i mod w), int (i div w)), (int (j mod w), int (j div w))))"

text \<open>
  \<^verbatim>\<open>cv2.rectangle(a, pt1, pt2, value, FILLED)\<close> on a two-dimensional array: every cell
  of the array between the two corners, both included, gets the value.
\<close>

definition rectangle :: "heatmap \<Rightarrow> position \<Rightarrow> position \<Rightarrow> real \<Rightarrow> heatmap" where
  "rectangle a pt1 pt2 v =
     (let w = shape a ! 1
      in NDArray (shape a)
           (map (\<lambda>i. let x = int (i mod w); y = int (i div w)
                      in if min (fst pt1) (fst pt2) \<le> x \<and> x \<le> max (fst pt1) (fst pt2)
                          \<and> min (snd pt1) (snd pt2) \<le> y \<and> y \<le> max (snd pt1) (snd pt2)
                         then v else elems a ! i)
              [0..<length (elems a)]))"

text \<open>
  \<^verbatim>\<open>cv2.threshold\<close> with \<^verbatim>\<open>THRESH_BINARY\<close> (\<open>inverse_flag = False\<close>) or \<^verbatim>\<open>THRESH_BINARY_INV\<close>
  and the maximum 255, on a heatmap, followed by \<^verbatim>\<open>astype(numpy.uint8)\<close>.
\<close>

definition threshold_heatmap :: "heatmap \<Rightarrow> real \<Rightarrow> bool \<Rightarrow> image" where
  "threshold_heatmap a thresh inverse_flag =
     NDArray (shape a) (map (\<lambda>v. if (v > thresh) \<noteq> inverse_flag then 255 else 0) (elems a))"

text \<open>The same with \<^verbatim>\<open>THRESH_BINARY\<close> on an 8-bit image and an integer threshold.\<close>

definition threshold_binary :: "image \<Rightarrow> int \<Rightarrow> 8 word \<Rightarrow> image" where
  "threshold_binary a thresh maxval =
     NDArray (shape a) (map (\<lambda>v. if uint v > thresh then maxval else 0) (elems a))"

text \<open>\<^verbatim>\<open>cv2.absdiff\<close> on 8-bit arrays of one size; OpenCV refuses two sizes.\<close>

definition absdiff :: "image \<Rightarrow> image \<Rightarrow> error + image" where
  "absdiff a b =
     (if shape a \<noteq> shape b \<or> length (elems a) \<noteq> length (elems b) then Inl CvError
      else Inr (NDArray (shape a)
                  (map (\<lambda>(p, q). if p \<le> q then q - p else p - q) (zip (elems a) (elems b)))))"

text \<open>
  \<^verbatim>\<open>cv2.erode\<close> on a two-dimensional 8-bit array: a pixel becomes the smallest of its
  neighbours under the structuring element, pixels outside the array being left out
  (OpenCV's default border for erosion); \<open>n\<close> iterations apply it \<open>n\<close> times. The
  structuring element is the list of its offsets (dy, dx);
  \<^verbatim>\<open>getStructuringElement(MORPH_ELLIPSE, (3, 3))\<close> is the 3 by 3 cross.
\<close>

definition MORPH_ELLIPSE_3x3 :: "(int \<times> int) list" where
  "MORPH_ELLIPSE_3x3 = [(-1, 0), (0, -1), (0, 0), (0, 1), (1, 0)]"

definition erode1 :: "(int \<times> int) list \<Rightarrow> image \<Rightarrow> image" where
  "erode1 element a =
     (let h = int (shape a ! 0); w = int (shape a ! 1)
      in NDArray (shape a)
           (map (\<lambda>i. let y = int i div w; x = int i mod w
                      in foldr min
                           (map (\<lambda>(dy, dx). elems a ! nat ((y + dy) * w + (x + dx)))
                              (filter (\<lambda>(dy, dx). 0 \<le> y + dy \<and> y + dy < h \<and> 0 \<le> x + dx \<and> x + dx < w)
                                 element))
                           255)
              [0..<length (elems a)]))"

definition erode :: "image \<Rightarrow> (int \<times> int) list \<Rightarrow> nat \<Rightarrow> image" where
  "erode a element iterations = (erode1 element ^^ iterations) a"

definition countNonZero :: "image \<Rightarrow> nat" where
  "countNonZero a = length (filter (\<lambda>v. v \<noteq> 0) (elems a))"

text \<open>Python's \<^verbatim>\<open>int(r)\<close> on a float: truncation towards zero.\<close>

definition int_trunc :: "real \<Rightarrow> int" where
  "int_trunc r = (if 0 \<le> r then \<lfloor>r\<rfloor> else \<lceil>r\<rceil>)"

section \<open>The first pass: candidate matches\<close>

text \<open>The dictionary lookup of \<^verbatim>\<open>match_parameters.match_method\<close>; a missing key raises.\<close>

definition method_of :: "string \<Rightarrow> tm_method option" where
  "method_of s =
     (if s = ''sqdiff-normed'' then Some TM_SQDIFF_NORMED
      else if s = ''ccorr-normed'' then Some TM_CCORR_NORMED
      else if s = ''ccoeff-normed'' then Some TM_CCOEFF_NORMED
      else None)"

text \<open>\<^verbatim>\<open>_find_best_match_position\<close>: (matched, best position, certainty).\<close>

definition find_best_match_position ::
  "heatmap \<Rightarrow> tm_method \<Rightarrow> real \<Rightarrow> error + (bool \<times> position \<times> real)" where
  "find_best_match_position matches_heatmap method threshold =
     (case minMaxLoc matches_heatmap of
        Inl e \<Rightarrow> Inl e
      | Inr (min_value, max_value, min_location, max_location) \<Rightarrow>
          let (certainty, best_match_position) =
                (if method = TM_SQDIFF_NORMED then (1 - min_value, min_location)
                 else (max_value, max_location))
          in Inr (certainty \<ge> threshold, best_match_position, certainty))"

text \<open>\<^verbatim>\<open>_Rect\<close> is (x, y, w, h) and \<^verbatim>\<open>_Size\<close> is (h, w).\<close>

type_synonym rect = "int \<times> int \<times> int \<times> int"

fun rect_expand :: "rect \<Rightarrow> int \<times> int \<Rightarrow> rect" where
  "rect_expand (x, y, w, h) (sh, sw) = (x, y, w + sw, h + sh)"

fun rect_shrink :: "rect \<Rightarrow> int \<times> int \<Rightarrow> rect" where
  "rect_shrink (x, y, w, h) (sh, sw) = (x, y, w - sw, h - sh)"

fun to_slice :: "rect \<Rightarrow> (int \<times> int) \<times> (int \<times> int)" where
  "to_slice (x, y, w, h) = ((y, y + h), (x, x + w))"

text \<open>
  \<^verbatim>\<open>_match_template\<close>: the heatmap starts as all ones (for the squared difference) or
  all zeros; with no region-of-interest mask the one region searched is the whole
  heatmap, otherwise the regions are the bounding boxes of the mask's contours. Each
  region is correlated on its own and written into its part of the heatmap.
\<close>

definition match_template ::
  "cv2 \<Rightarrow> image \<Rightarrow> image \<Rightarrow> tm_method \<Rightarrow> image option \<Rightarrow> error + heatmap" where
  "match_template cv img template method roi_mask =
     (let hh = int (shape img ! 0) - int (shape template ! 0) + 1;
          hw = int (shape img ! 1) - int (shape template ! 1) + 1
      in if hh < 0 \<or> hw < 0 then Inl (ValueError ''negative dimensions are not allowed'')
         else
           let matches_heatmap =
                 NDArray [nat hh, nat hw]
                   (replicate (nat hh * nat hw) (if method = TM_SQDIFF_NORMED then 1 else 0));
               rois = (case roi_mask of
                         None \<Rightarrow> [(0, 0, hw, hh)]
                       | Some m \<Rightarrow> find_contour_boxes cv m)
           in Inr (foldl
                     (\<lambda>heatmap roi.
                        let r = rect_shrink
                                  (rect_expand roi (int (shape template ! 0), int (shape template ! 1)))
                                  (1, 1)
                        in write_view heatmap (fst (to_slice roi)) (snd (to_slice roi))
                             (matchTemplate cv (crop2d img (fst (to_slice r)) (snd (to_slice r)))
                                template method))
                     matches_heatmap rois))"

text \<open>
  The start of each iteration of the pyramid loop: a region-of-interest mask with a
  dimension below 3 is dropped (the whole image is searched), any other is upsampled.
\<close>

definition upsample_roi :: "cv2 \<Rightarrow> image option \<Rightarrow> image option" where
  "upsample_roi cv roi_mask =
     (case roi_mask of
        None \<Rightarrow> None
      | Some m \<Rightarrow> if any_lt 3 (shape m) then None else Some (pyrUp cv m))"

text \<open>The variables the pyramid loop leaves behind.\<close>

record search =
  s_heatmap :: heatmap
  s_threshold :: real
  s_matched :: bool
  s_best_match_position :: position
  s_certainty :: real
  s_level :: nat

text \<open>
  The pyramid loop of \<^verbatim>\<open>_find_candidate_matches\<close>, over the levels from the coarsest to
  level 0. It leaves at the first level that does not match. Were there no level at
  all, the variables read after the loop would be unbound.
\<close>

fun search_levels ::
  "cv2 \<Rightarrow> match_parameters \<Rightarrow> tm_method \<Rightarrow> image list \<Rightarrow> image list
   \<Rightarrow> image option \<Rightarrow> nat list \<Rightarrow> error + search" where
  "search_levels cv mp method image_pyramid template_pyramid roi_mask [] = Inl UnboundLocalError"
| "search_levels cv mp method image_pyramid template_pyramid roi_mask (level # rest) =
     (if length image_pyramid \<le> level \<or> length template_pyramid \<le> level then Inl IndexError
      else
        case match_template cv (image_pyramid ! level) (template_pyramid ! level) method
               (upsample_roi cv roi_mask) of
          Inl e \<Rightarrow> Inl e
        | Inr heatmap \<Rightarrow>
            let threshold = max 0 (match_threshold mp - (if level > 0 then 2 / 10 else 0))
            in case find_best_match_position heatmap method threshold of
                 Inl e \<Rightarrow> Inl e
               | Inr (matched, best_match_position, certainty) \<Rightarrow>
                   if \<not> matched \<or> rest = []
                   then Inr \<lparr> s_heatmap = heatmap, s_threshold = threshold, s_matched = matched,
                              s_best_match_position = best_match_position,
                              s_certainty = certainty, s_level = level \<rparr>
                   else search_levels cv mp method image_pyramid template_pyramid
                          (Some (threshold_heatmap heatmap
                                   (if method = TM_SQDIFF_NORMED then 1 - threshold else threshold)
                                   (method = TM_SQDIFF_NORMED)))
                          rest)"

text \<open>\<^verbatim>\<open>_upsample\<close>\<close>

definition upsample :: "position \<Rightarrow> nat \<Rightarrow> position" where
  "upsample p levels = (fst p * 2 ^ levels, snd p * 2 ^ levels)"

text \<open>
  \<^verbatim>\<open>_find_candidate_matches\<close> is a generator. Its local variables at a \<^verbatim>\<open>yield\<close> are a
  record; \<open>candidates_start\<close> runs it to its first \<^verbatim>\<open>yield\<close>, \<open>candidates_resume\<close> from
  one \<^verbatim>\<open>yield\<close> to the next, or to its return, or to an exception. The value yielded is
  (i, matched, region, certainty) of the record.
\<close>

record candidate =
  c_method :: tm_method
  c_threshold :: real
  c_level :: nat
  c_heatmap :: heatmap
  c_i :: nat
  c_matched :: bool
  c_region :: region
  c_certainty :: real

datatype 'a resume = Next 'a | Stop | Raise error

definition candidates_start ::
  "cv2 \<Rightarrow> int \<Rightarrow> image \<Rightarrow> image \<Rightarrow> match_parameters \<Rightarrow> error + candidate" where
  "candidates_start cv levels img template mp =
     (case method_of (match_method mp) of
        None \<Rightarrow> Inl KeyError
      | Some method \<Rightarrow>
          if levels \<le> 0 then Inl (ConfigurationError ''match.pyramid_levels must be > 0'')
          else
            let template_pyramid = build_pyramid cv template levels;
                image_pyramid = build_pyramid cv img (int (length template_pyramid))
            in case search_levels cv mp method image_pyramid template_pyramid None
                      (rev [0..<length template_pyramid]) of
                 Inl e \<Rightarrow> Inl e
               | Inr s \<Rightarrow>
                   let p = upsample (s_best_match_position s) (s_level s)
                   in Inr \<lparr> c_method = method, c_threshold = s_threshold s, c_level = s_level s,
                              c_heatmap = s_heatmap s, c_i = 0, c_matched = s_matched s,
                              c_region = Region (fst p) (snd p)
                                           (int (shape template ! 1)) (int (shape template ! 0)),
                              c_certainty = s_certainty s \<rparr>)"

definition candidates_resume :: "image \<Rightarrow> match_parameters \<Rightarrow> candidate \<Rightarrow> candidate resume" where
  "candidates_resume template mp c =
     (if \<not> c_matched c then Stop
      else if c_level c \<noteq> 0 then Raise AssertionError
      else
        let region = c_region c;
            exclude = region_extend region (- (region_width region - 1)) (- (region_height region - 1));
            mask_value = (if match_method mp = ''sqdiff-normed'' then 255 else 0);
            heatmap = rectangle (c_heatmap c) (region_x exclude, region_y exclude)
                        (region_right exclude - 1, region_bottom exclude - 1) mask_value
        in case find_best_match_position heatmap (c_method c) (c_threshold c) of
             Inl e \<Rightarrow> Raise e
           | Inr (matched, best_match_position, certainty) \<Rightarrow>
               Next (c\<lparr> c_heatmap := heatmap, c_i := c_i c + 1, c_matched := matched,
                        c_region := Region (fst best_match_position) (snd best_match_position)
                                      (int (shape template ! 1)) (int (shape template ! 0)),
                        c_certainty := certainty \<rparr>))"

section \<open>The second pass: confirmation\<close>

text \<open>\<^verbatim>\<open>_confirm_match\<close>\<close>

definition confirm_match ::
  "cv2 \<Rightarrow> image \<Rightarrow> region \<Rightarrow> image \<Rightarrow> match_parameters \<Rightarrow> error + bool" where
  "confirm_match cv img region template mp =
     (if confirm_method mp = ''none'' then Inr True
      else
        let roi = crop2d img (region_y region, region_bottom region)
                    (region_x region, region_right region);
            image_gray = cvtColor_BGR2GRAY cv roi;
            template_gray = cvtColor_BGR2GRAY cv template;
            image_gray' = (if confirm_method mp = ''normed-absdiff''
                           then normalize_MINMAX cv image_gray else image_gray);
            template_gray' = (if confirm_method mp = ''normed-absdiff''
                              then normalize_MINMAX cv template_gray else template_gray)
        in case absdiff image_gray' template_gray' of
             Inl e \<Rightarrow> Inl e
           | Inr d \<Rightarrow>
               let thresholded = threshold_binary d (int_trunc (confirm_threshold mp * 255)) 255;
                   eroded = erode thresholded MORPH_ELLIPSE_3x3 (erode_passes mp)
               in Inr (countNonZero eroded = 0))"

section \<open>The matching engine\<close>

text \<open>
  What \<^verbatim>\<open>_find_matches\<close> yields: (confirmed, region, first_pass_matched,
  first_pass_certainty).
\<close>

record found =
  matched :: bool
  found_region :: region
  first_pass_matched :: bool
  first_pass_certainty :: real

text \<open>
  A finished run of a generator: the values it yielded and the exception that ended it,
  if one did. A run that never finishes has no such value.
\<close>

datatype 'a run = Run (yielded: "'a list") (raised: "error option")

definition run_cons :: "'a \<Rightarrow> 'a run \<Rightarrow> 'a run" where
  "run_cons v r = Run (v # yielded r) (raised r)"

text \<open>
  The loop of \<^verbatim>\<open>_find_matches\<close> over the candidates, from a candidate just yielded: it
  confirms the candidate, yields, and leaves at the first result that is not confirmed.
\<close>

partial_function (option) find_matches_loop ::
  "cv2 \<Rightarrow> image \<Rightarrow> image \<Rightarrow> match_parameters \<Rightarrow> candidate \<Rightarrow> found run option" where
  "find_matches_loop cv img template mp c =
     (case (if c_matched c then confirm_match cv img (c_region c) template mp else Inr False) of
        Inl e \<Rightarrow> Some (Run [] (Some e))
      | Inr confirmed \<Rightarrow>
          let result = \<lparr> matched = confirmed, found_region = c_region c,
                         first_pass_matched = c_matched c,
                         first_pass_certainty = c_certainty c \<rparr>
          in if \<not> confirmed then Some (Run [result] None)
             else case candidates_resume template mp c of
                    Stop \<Rightarrow> Some (Run [result] None)
                  | Raise e \<Rightarrow> Some (Run [result] (Some e))
                  | Next c' \<Rightarrow>
                      Option.bind (find_matches_loop cv img template mp c')
                        (\<lambda>r. Some (run_cons result r)))"

text \<open>
  \<^verbatim>\<open>_find_matches\<close>: the checks of the frame and the template, then the loop. The
  element type of the arrays is 8-bit by the type of the model, so the check of the
  template's dtype always passes. \<open>levels\<close> is the configuration value
  \<^verbatim>\<open>match.pyramid_levels\<close>.
\<close>

definition find_matches ::
  "cv2 \<Rightarrow> int \<Rightarrow> image \<Rightarrow> image \<Rightarrow> match_parameters \<Rightarrow> found run option" where
  "find_matches cv levels img template mp =
     (if length (shape img) < 1 \<or> length (shape template) < 1 then Some (Run [] (Some IndexError))
      else if shape img ! 0 < shape template ! 0
      then Some (Run [] (Some (ValueError ''Source image must be larger than template image'')))
      else if length (shape img) < 2 \<or> length (shape template) < 2
      then Some (Run [] (Some IndexError))
      else if shape img ! 1 < shape template ! 1
      then Some (Run [] (Some (ValueError ''Source image must be larger than template image'')))
      else if any_lt 1 (take 2 (shape template))
      then Some (Run [] (Some (ValueError ''Template image must contain some data'')))
      else if length (shape template) \<noteq> 3 \<or> shape template ! 2 \<noteq> 3
      then Some (Run [] (Some (ValueError ''Template image must be 3 channel BGR'')))
      else case candidates_start cv levels img template mp of
             Inl e \<Rightarrow> Some (Run [] (Some e))
           | Inr c \<Rightarrow> find_matches_loop cv img template mp c)"

section \<open>Auxiliary notions for the matching engine\<close>

text \<open>
  A heatmap value can match when the certainty it gives reaches the threshold; the
  number of such cells bounds the number of matches still to come.
\<close>

definition can_match :: "tm_method \<Rightarrow> real \<Rightarrow> real \<Rightarrow> bool" where
  "can_match method threshold v =
     (if method = TM_SQDIFF_NORMED then threshold \<le> 1 - v else threshold \<le> v)"

definition unmasked :: "tm_method \<Rightarrow> real \<Rightarrow> heatmap \<Rightarrow> nat" where
  "unmasked method threshold a = length (filter (can_match method threshold) (elems a))"

definition heatmap_wf :: "heatmap \<Rightarrow> bool" where
  "heatmap_wf a \<longleftrightarrow> length (shape a) = 2 \<and> length (elems a) = shape a ! 0 * shape a ! 1"

text \<open>
  What holds of the generator's variables at each \<^verbatim>\<open>yield\<close>: the threshold is not
  negative, the candidate is a match exactly when its certainty reaches the threshold,
  and a match is at level 0, at the best position of the current heatmap.
\<close>

definition cand_ok :: "image \<Rightarrow> match_parameters \<Rightarrow> candidate \<Rightarrow> bool" where
  "cand_ok template mp c \<longleftrightarrow>
     method_of (match_method mp) = Some (c_method c) \<and> 0 \<le> c_threshold c \<and>
     c_matched c = (c_threshold c \<le> c_certainty c) \<and>
     (c_matched c \<longrightarrow>
        c_level c = 0 \<and> 1 \<le> shape template ! 0 \<and> 1 \<le> shape template ! 1 \<and>
        (\<exists>x y. c_region c = Region x y (int (shape template ! 1)) (int (shape template ! 0)) \<and>
           find_best_match_position (c_heatmap c) (c_method c) (c_threshold c)
             = Inr (True, (x, y), c_certainty c)))"

text \<open>
  The value written over an excluded rectangle cannot itself match: 255 for the squared
  difference (certainty -254), and 0 otherwise, which is below the threshold only when
  the threshold is positive.
\<close>

definition mask_safe :: "match_parameters \<Rightarrow> candidate \<Rightarrow> bool" where
  "mask_safe mp c \<longleftrightarrow> match_method mp = ''sqdiff-normed'' \<or> 0 < c_threshold c"

text \<open>
  The shape of a finished run: every result but the last is a match; the last is not,
  unless an exception ended the run.
\<close>

definition run_shape :: "found run \<Rightarrow> bool" where
  "run_shape r \<longleftrightarrow>
     list_all matched (butlast (yielded r)) \<and>
     (case raised r of
        None \<Rightarrow> yielded r \<noteq> [] \<and> \<not> matched (last (yielded r))
      | Some e \<Rightarrow> list_all matched (yielded r))"


text \<open>
  A stand-in for OpenCV on gray inputs: the heatmap is given, and the intensity of a
  pixel is its first channel, which is what \<^verbatim>\<open>cvtColor\<close> computes for a pixel whose three
  channels are equal.
\<close>

definition first_channel :: "image \<Rightarrow> image" where
  "first_channel im =
     (let c = prod_list (drop 2 (shape im))
      in NDArray (take 2 (shape im))
           (map (\<lambda>i. elems im ! (i * c)) [0..<prod_list (take 2 (shape im))]))"

definition cv2_with :: "heatmap \<Rightarrow> cv2" where
  "cv2_with h = cv2_blank\<lparr> matchTemplate := (\<lambda>im t m. h), cvtColor_BGR2GRAY := first_channel \<rparr>"

text \<open>A one-pixel gray image.\<close>

definition pixel :: "8 word \<Rightarrow> image" where
  "pixel v = NDArray [1, 1, 3] [v, v, v]"

text \<open>
  The threshold of the generator is the match threshold clamped at 0, relaxed by 0.2
  above level 0; a match is at level 0, so its threshold is not relaxed.
\<close>

definition threshold_inv :: "match_parameters \<Rightarrow> candidate \<Rightarrow> bool" where
  "threshold_inv mp c \<longleftrightarrow>
     c_threshold c \<le> max 0 (match_threshold mp) \<and>
     (c_matched c \<longrightarrow> c_threshold c = max 0 (match_threshold mp))"

text \<open>The frames and templates that pass the checks of \<^verbatim>\<open>_find_matches\<close>.\<close>

definition accepted :: "image \<Rightarrow> image \<Rightarrow> bool" where
  "accepted img template \<longleftrightarrow>
     dims_ge (shape img) (shape template) \<and> \<not> any_lt 1 (take 2 (shape template))
     \<and> length (shape template) = 3 \<and> shape template ! 2 = 3"

text \<open>
  Concrete inputs. A frame of one row of three gray pixels 250, 200, 250 and a template
  of one pixel 250: OpenCV's normalised squared difference is 0, 0.05 and 0 at the three
  positions. A frame and a template of the same single pixel: the normalised
  correlation is 1.
\<close>

definition frame3 :: image where
  "frame3 = NDArray [1, 3, 3] [250, 250, 250, 200, 200, 200, 250, 250, 250]"

definition heatmap3 :: heatmap where
  "heatmap3 = NDArray [1, 3] [0, 5 / 100, 0]"

definition mp_absdiff :: match_parameters where
  "mp_absdiff = \<lparr> match_method = ''sqdiff-normed'', match_threshold = 8 / 10,
                  confirm_method = ''absdiff'', confirm_threshold = 16 / 100,
                  erode_passes = 0 \<rparr>"

definition mp_ccorr0 :: match_parameters where
  "mp_ccorr0 = \<lparr> match_method = ''ccorr-normed'', match_threshold = 0,
                 confirm_method = ''none'', confirm_threshold = 16 / 100,
                 erode_passes = 1 \<rparr>"

section \<open>The confirmation pass as the specification words it\<close>

text \<open>
  Following the specification's words, for comparison with \<open>confirm_match\<close>: with the
  method "none" the match is confirmed; otherwise the region is cropped from the
  frame, crop and template are converted to intensity (and each rescaled on its own for
  "normed-absdiff"), a pixel survives the threshold when the absolute difference there
  exceeds the confirmation threshold times the maximum intensity 255, the survivors are
  eroded \<open>erode_passes\<close> times with the 3 by 3 elliptical element, and the match is
  confirmed when no pixel is left.
\<close>

definition confirm_spec ::
  "cv2 \<Rightarrow> image \<Rightarrow> region \<Rightarrow> image \<Rightarrow> match_parameters \<Rightarrow> error + bool" where
  "confirm_spec cv img region template mp =
     (if confirm_method mp = ''none'' then Inr True
      else
        let cropped = crop2d img (region_y region, region_bottom region)
                        (region_x region, region_right region);
            rescale = (if confirm_method mp = ''normed-absdiff''
                       then normalize_MINMAX cv else (\<lambda>a. a));
            a = rescale (cvtColor_BGR2GRAY cv cropped);
            b = rescale (cvtColor_BGR2GRAY cv template)
        in if shape a \<noteq> shape b \<or> length (elems a) \<noteq> length (elems b) then Inl CvError
           else
             let survivors =
                   NDArray (shape a)
                     (map (\<lambda>(p, q). if confirm_threshold mp * 255 < \<bar>real (unat p) - real (unat q)\<bar>
                                      then 255 else 0)
                        (zip (elems a) (elems b)))
             in Inr (list_all (\<lambda>v. v = 0)
                       (elems ((erode1 MORPH_ELLIPSE_3x3 ^^ erode_passes mp) survivors))))"

section \<open>The public search\<close>

text \<open>
  A frame is an image with the time of its capture, if it has one. A \<^verbatim>\<open>MatchResult\<close>
  is falsey exactly when its \<^verbatim>\<open>match\<close> is false.
\<close>

record frame =
  frame_pixels :: image
  frame_time :: "real option"

record match_result =
  result_time :: "real option"
  result_match :: bool
  result_region :: region
  result_first_pass_result :: real
  result_frame :: frame
  result_image :: image
  result_first_pass_matched :: bool

text \<open>
  Modelled from the spec: \<^verbatim>\<open>_image_region\<close> and \<^verbatim>\<open>crop\<close> of \<^verbatim>\<open>_stbt/imgutils.py\<close>, which
  is not among the sources. The region of an image is its full extent, as
  \<^verbatim>\<open>Mask.to_array\<close> builds it; cropping cuts the image to a region and needs the
  region's edges, so it raises when there is no region.
\<close>

definition image_region :: "image \<Rightarrow> region" where
  "image_region img = Region 0 0 (int (shape img ! 1)) (int (shape img ! 0))"

fun crop :: "image \<Rightarrow> region option \<Rightarrow> error + image" where
  "crop img None = Inl AttributeError"
| "crop img (Some Region_ALL) = Inl TypeError"
| "crop img (Some (Region x y w h)) = Inr (crop2d img (y, y + h) (x, x + w))"

text \<open>
  \<^verbatim>\<open>DeviceUnderTest._match_all\<close>, with the template loaded, the frame captured and the
  parameters given: the search runs on the frame cut to the region, and each result
  becomes a \<^verbatim>\<open>MatchResult\<close> with its region moved back into the frame's coordinates.
\<close>

definition to_match_result :: "frame \<Rightarrow> image \<Rightarrow> region \<Rightarrow> found \<Rightarrow> match_result" where
  "to_match_result fr template rg f =
     \<lparr> result_time = frame_time fr, result_match = matched f,
       result_region = region_translate (found_region f) (region_x rg) (region_y rg),
       result_first_pass_result = first_pass_certainty f, result_frame = fr,
       result_image = template, result_first_pass_matched = first_pass_matched f \<rparr>"

definition match_all_inner ::
  "cv2 \<Rightarrow> int \<Rightarrow> frame \<Rightarrow> image \<Rightarrow> match_parameters \<Rightarrow> region \<Rightarrow> match_result run option" where
  "match_all_inner cv levels fr template mp rg =
     (case intersect (Some (image_region (frame_pixels fr))) (Some rg) of
        None \<Rightarrow> Some (Run [] (Some AttributeError))
      | Some rg' \<Rightarrow>
          (case crop (frame_pixels fr) (Some rg') of
             Inl e \<Rightarrow> Some (Run [] (Some e))
           | Inr cropped \<Rightarrow>
               Option.bind (find_matches cv levels cropped template mp)
                 (\<lambda>r. Some (Run (map (to_match_result fr template rg') (yielded r)) (raised r)))))"

text \<open>
  \<^verbatim>\<open>DeviceUnderTest.match_all\<close>: the loop over the results of \<^verbatim>\<open>_match_all\<close> yields each
  truthy result and leaves at the first falsey one, which it does not yield. An
  exception of the underlying search passes through.
\<close>

fun match_all_loop :: "match_result list \<Rightarrow> error option \<Rightarrow> match_result run" where
  "match_all_loop [] e = Run [] e"
| "match_all_loop (result # results) e =
     (if result_match result then run_cons result (match_all_loop results e) else Run [] None)"

definition match_all ::
  "cv2 \<Rightarrow> int \<Rightarrow> frame \<Rightarrow> image \<Rightarrow> match_parameters \<Rightarrow> region \<Rightarrow> match_result run option" where
  "match_all cv levels fr template mp rg =
     Option.bind (match_all_inner cv levels fr template mp rg)
       (\<lambda>r. Some (match_all_loop (yielded r) (raised r)))"

text \<open>The three-pixel frame, captured at time 1.\<close>

definition frame3_at :: frame where
  "frame3_at = \<lparr> frame_pixels = frame3, frame_time = Some 1 \<rparr>"

section \<open>Masks\<close>

text \<open>
  A \<^verbatim>\<open>Mask\<close> has the fields of the class: at most one of image, binary operation and
  region is set, with the invert flag and the array memoised by \<^verbatim>\<open>to_array\<close>. A
  \<^verbatim>\<open>BinOp\<close> is an operator, "+" or "-", and two masks.
\<close>

datatype mask =
  Mask (mask_image: "image option") (mask_binop: "binop option")
       (mask_region: "region option") (mask_invert: bool) (mask_array: "image option")
and binop = BinOp (binop_op: string) (binop_left: mask) (binop_right: mask)

text \<open>
  What \<^verbatim>\<open>Mask.__init__\<close> is given: an image (a file name or an array, loaded by the
  external \<^verbatim>\<open>load_image\<close>), a \<^verbatim>\<open>BinOp\<close>, a \<^verbatim>\<open>Mask\<close>, a \<^verbatim>\<open>Region\<close>, \<^verbatim>\<open>None\<close>, or
  anything else.
\<close>

datatype mask_arg =
  ArgImage image | ArgBinOp binop | ArgMask mask | ArgRegion region | ArgNone | ArgOther

fun new_mask :: "mask_arg \<Rightarrow> bool \<Rightarrow> error + mask" where
  "new_mask (ArgImage im) invert = Inr (Mask (Some im) None None invert None)"
| "new_mask (ArgBinOp b) invert = Inr (Mask None (Some b) None invert None)"
| "new_mask (ArgMask m) invert =
     Inr (Mask (mask_image m) (mask_binop m) (mask_region m)
            (if invert then \<not> mask_invert m else mask_invert m) None)"
| "new_mask (ArgRegion r) invert = Inr (Mask None None (Some r) invert None)"
| "new_mask ArgNone invert =
     Inr (Mask None None (if invert then Some Region_ALL else None) False None)"
| "new_mask ArgOther invert = Inl TypeError"

text \<open>
  \<^verbatim>\<open>__add__\<close>, \<^verbatim>\<open>__sub__\<close> and \<^verbatim>\<open>__invert__\<close>. An operand that is neither a region
  nor a mask gives \<^verbatim>\<open>NotImplemented\<close>, which Python turns into a \<^verbatim>\<open>TypeError\<close>.
\<close>

definition mask_binary :: "string \<Rightarrow> mask \<Rightarrow> mask_arg \<Rightarrow> error + mask" where
  "mask_binary opr self other =
     (case other of
        ArgRegion r \<Rightarrow>
          (case new_mask other False of
             Inl e \<Rightarrow> Inl e
           | Inr m \<Rightarrow> new_mask (ArgBinOp (BinOp opr self m)) False)
      | ArgMask m' \<Rightarrow>
          (case new_mask other False of
             Inl e \<Rightarrow> Inl e
           | Inr m \<Rightarrow> new_mask (ArgBinOp (BinOp opr self m)) False)
      | _ \<Rightarrow> Inl TypeError)"

definition mask_add :: "mask \<Rightarrow> mask_arg \<Rightarrow> error + mask" where
  "mask_add self other = mask_binary ''+'' self other"

definition mask_sub :: "mask \<Rightarrow> mask_arg \<Rightarrow> error + mask" where
  "mask_sub self other = mask_binary ''-'' self other"

definition mask_inverted :: "mask \<Rightarrow> error + mask" where
  "mask_inverted self = new_mask (ArgMask self) True"

text \<open>
  The operators of numpy on 8-bit arrays of one shape, element by element. Two shapes
  that differ are refused (numpy's broadcasting of compatible shapes does not arise:
  every array \<^verbatim>\<open>to_array\<close> combines has the requested shape).
\<close>

definition numpy_or :: "image \<Rightarrow> image \<Rightarrow> error + image" where
  "numpy_or a b =
     (if shape a \<noteq> shape b
      then Inl (ValueError ''operands could not be broadcast together'')
      else Inr (NDArray (shape a) (map (\<lambda>(p, q). p OR q) (zip (elems a) (elems b)))))"

definition numpy_and :: "image \<Rightarrow> image \<Rightarrow> error + image" where
  "numpy_and a b =
     (if shape a \<noteq> shape b
      then Inl (ValueError ''operands could not be broadcast together'')
      else Inr (NDArray (shape a) (map (\<lambda>(p, q). p AND q) (zip (elems a) (elems b)))))"

definition numpy_invert :: "image \<Rightarrow> image" where
  "numpy_invert a = NDArray (shape a) (map (\<lambda>p. NOT p) (elems a))"

text \<open>\<^verbatim>\<open>numpy.full(shape, v)\<close> and the assignment \<^verbatim>\<open>a[y0:y1, x0:x1] = v\<close>.\<close>

definition full :: "nat list \<Rightarrow> 8 word \<Rightarrow> image" where
  "full sh v = NDArray sh (replicate (prod_list sh) v)"

definition fill2d :: "image \<Rightarrow> int \<times> int \<Rightarrow> int \<times> int \<Rightarrow> 8 word \<Rightarrow> image" where
  "fill2d a ys xs v =
     (let h = shape a ! 0; w = shape a ! 1; c = prod_list (drop 2 (shape a));
          (y0, y1) = py_slice h (fst ys) (snd ys);
          (x0, x1) = py_slice w (fst xs) (snd xs)
      in NDArray (shape a)
           (map (\<lambda>i. let y = (i div c) div w; x = (i div c) mod w
                      in if y0 \<le> y \<and> y < y1 \<and> x0 \<le> x \<and> x < x1 then v else elems a ! i)
              [0..<length (elems a)]))"

text \<open>
  The three ways \<^verbatim>\<open>to_array\<close> builds an array. For an image the external
  \<^verbatim>\<open>load_image(array, color_channels = n)\<close>, which converts the channels, is the
  parameter \<open>ld\<close>. For a region (or none) the array is all zero but for the region's
  intersection with the frame.
\<close>

definition image_array :: "(image \<Rightarrow> nat \<Rightarrow> image) \<Rightarrow> image \<Rightarrow> nat list \<Rightarrow> error + image" where
  "image_array ld im sh =
     (if take 2 (shape im) \<noteq> take 2 sh
      then Inl (ValueError ''Mask shape and required shape do not match'')
      else if length (shape im) < 3 \<or> length sh < 3 then Inl IndexError
      else if shape im ! 2 \<noteq> sh ! 2 then Inr (ld im (sh ! 2))
      else Inr im)"

definition region_array :: "region option \<Rightarrow> nat list \<Rightarrow> error + image" where
  "region_array rg sh =
     (if length sh < 2 then Inl IndexError
      else
        case intersect rg (Some (Region 0 0 (int (sh ! 1)) (int (sh ! 0)))) of
          None \<Rightarrow> Inr (full sh 0)
        | Some r \<Rightarrow>
            Inr (fill2d (full sh 0) (region_y r, region_bottom r) (region_x r, region_right r)
                   255))"

definition memo_hit :: "image option \<Rightarrow> nat list \<Rightarrow> image option" where
  "memo_hit memo sh =
     (case memo of None \<Rightarrow> None | Some a \<Rightarrow> if shape a = sh then Some a else None)"

text \<open>
  \<^verbatim>\<open>Mask.to_array\<close>: the result, or the exception, and the mask with the arrays memoised
  on the way (in the mask itself and in the operands of its binary operations). An
  exception leaves the mask's own memo as it was.
\<close>

fun to_array :: "(image \<Rightarrow> nat \<Rightarrow> image) \<Rightarrow> mask \<Rightarrow> nat list \<Rightarrow> (error + image) \<times> mask" where
  "to_array ld (Mask (Some im) bo rg invert memo) sh =
     (case memo_hit memo sh of
        Some a \<Rightarrow> (Inr a, Mask (Some im) bo rg invert memo)
      | None \<Rightarrow>
          (case image_array ld im sh of
             Inl e \<Rightarrow> (Inl e, Mask (Some im) bo rg invert memo)
           | Inr array \<Rightarrow>
               let array' = (if invert then numpy_invert array else array)
               in (Inr array', Mask (Some im) bo rg invert (Some array'))))"
| "to_array ld (Mask None (Some (BinOp opr l r)) rg invert memo) sh =
     (case memo_hit memo sh of
        Some a \<Rightarrow> (Inr a, Mask None (Some (BinOp opr l r)) rg invert memo)
      | None \<Rightarrow>
          if opr \<noteq> ''+'' \<and> opr \<noteq> ''-''
          then (Inl AssertionError, Mask None (Some (BinOp opr l r)) rg invert memo)
          else
            (case to_array ld l sh of
               (Inl e, l') \<Rightarrow> (Inl e, Mask None (Some (BinOp opr l' r)) rg invert memo)
             | (Inr la, l') \<Rightarrow>
                 (case to_array ld r sh of
                    (Inl e, r') \<Rightarrow> (Inl e, Mask None (Some (BinOp opr l' r')) rg invert memo)
                  | (Inr ra, r') \<Rightarrow>
                      (case (if opr = ''+'' then numpy_or la ra
                             else numpy_and la (numpy_invert ra)) of
                         Inl e \<Rightarrow> (Inl e, Mask None (Some (BinOp opr l' r')) rg invert memo)
                       | Inr array \<Rightarrow>
                           let array' = (if invert then numpy_invert array else array)
                           in (Inr array',
                               Mask None (Some (BinOp opr l' r')) rg invert (Some array'))))))"
| "to_array ld (Mask None None rg invert memo) sh =
     (case memo_hit memo sh of
        Some a \<Rightarrow> (Inr a, Mask None None rg invert memo)
      | None \<Rightarrow>
          (case region_array rg sh of
             Inl e \<Rightarrow> (Inl e, Mask None None rg invert memo)
           | Inr array \<Rightarrow>
               let array' = (if invert then numpy_invert array else array)
               in (Inr array', Mask None None rg invert (Some array'))))"

text \<open>
  The coverage of a mask for a shape: what \<^verbatim>\<open>to_array\<close> computes when nothing is
  memoised. The memoised arrays of a mask are sound when each is the coverage of its
  mask for its own shape.
\<close>

fun coverage :: "(image \<Rightarrow> nat \<Rightarrow> image) \<Rightarrow> mask \<Rightarrow> nat list \<Rightarrow> error + image" where
  "coverage ld (Mask (Some im) bo rg invert memo) sh =
     (case image_array ld im sh of
        Inl e \<Rightarrow> Inl e
      | Inr array \<Rightarrow> Inr (if invert then numpy_invert array else array))"
| "coverage ld (Mask None (Some (BinOp opr l r)) rg invert memo) sh =
     (if opr \<noteq> ''+'' \<and> opr \<noteq> ''-'' then Inl AssertionError
      else
        case coverage ld l sh of
          Inl e \<Rightarrow> Inl e
        | Inr la \<Rightarrow>
            (case coverage ld r sh of
               Inl e \<Rightarrow> Inl e
             | Inr ra \<Rightarrow>
                 (case (if opr = ''+'' then numpy_or la ra else numpy_and la (numpy_invert ra)) of
                    Inl e \<Rightarrow> Inl e
                  | Inr array \<Rightarrow> Inr (if invert then numpy_invert array else array))))"
| "coverage ld (Mask None None rg invert memo) sh =
     (case region_array rg sh of
        Inl e \<Rightarrow> Inl e
      | Inr array \<Rightarrow> Inr (if invert then numpy_invert array else array))"

fun memo_ok :: "(image \<Rightarrow> nat \<Rightarrow> image) \<Rightarrow> mask \<Rightarrow> bool" where
  "memo_ok ld (Mask (Some im) bo rg invert memo) =
     (case memo of None \<Rightarrow> True
      | Some a \<Rightarrow> coverage ld (Mask (Some im) bo rg invert memo) (shape a) = Inr a)"
| "memo_ok ld (Mask None (Some (BinOp opr l r)) rg invert memo) =
     ((case memo of None \<Rightarrow> True
       | Some a \<Rightarrow> coverage ld (Mask None (Some (BinOp opr l r)) rg invert memo) (shape a) = Inr a)
      \<and> memo_ok ld l \<and> memo_ok ld r)"
| "memo_ok ld (Mask None None rg invert memo) =
     (case memo of None \<Rightarrow> True
      | Some a \<Rightarrow> coverage ld (Mask None None rg invert memo) (shape a) = Inr a)"

text \<open>
  What is assumed of the external loader: converting an image to \<open>n\<close> channels keeps
  its height and width and gives \<open>n\<close> channels.
\<close>

definition loader_ok :: "(image \<Rightarrow> nat \<Rightarrow> image) \<Rightarrow> bool" where
  "loader_ok ld \<longleftrightarrow> (\<forall>im n. shape (ld im n) = take 2 (shape im) @ [n])"

text \<open>A loader for concrete inputs: every channel of the result is the first channel.\<close>

definition spread_channels :: "image \<Rightarrow> nat \<Rightarrow> image" where
  "spread_channels im n =
     NDArray (take 2 (shape im) @ [n])
       (concat (map (\<lambda>v. replicate n v) (elems (first_channel im))))"




section \<open>Properties of the pyramid\<close>

lemma cv2_sizes_blank: "cv2_sizes cv2_blank"
  by (simp add: cv2_sizes_def cv2_blank_def blank_def)

lemma build_pyramid_loop_numeral:
  "build_pyramid_loop cv (numeral k) pyramid =
     (if any_lt 20 (take 2 (shape (last pyramid))) then pyramid
      else build_pyramid_loop cv (pred_numeral k) (pyramid @ [pyrDown cv (last pyramid)]))"
  by (simp add: numeral_eq_Suc)

lemma loop_length_le: "length (build_pyramid_loop cv n pyr) \<le> length pyr + n"
proof (induction n arbitrary: pyr)
  case 0 show ?case by simp
next
  case (Suc n)
  have "length (build_pyramid_loop cv n (pyr @ [pyrDown cv (last pyr)])) \<le> length pyr + Suc n"
    using Suc [of "pyr @ [pyrDown cv (last pyr)]"] by simp
  then show ?case by simp
qed

lemma loop_length:
  assumes "cv2_sizes cv"
  shows "length (build_pyramid_loop cv n pyr) = length pyr + pyramid_steps n (shape (last pyr))"
proof (induction n arbitrary: pyr)
  case 0 show ?case by simp
next
  case (Suc n)
  have sh: "shape (pyrDown cv (last pyr)) = pyr_down_shape (shape (last pyr))"
    using assms by (simp add: cv2_sizes_def)
  show ?case using Suc [of "pyr @ [pyrDown cv (last pyr)]"] by (simp add: sh)
qed

lemma loop_stop:
  "length (build_pyramid_loop cv n pyr) = length pyr + n \<or>
   any_lt 20 (take 2 (shape (last (build_pyramid_loop cv n pyr))))"
proof (induction n arbitrary: pyr)
  case 0 show ?case by simp
next
  case (Suc n)
  show ?case using Suc [of "pyr @ [pyrDown cv (last pyr)]"] by auto
qed

lemma loop_inner:
  assumes "\<And>i. Suc i < length pyr \<Longrightarrow> \<not> any_lt 20 (take 2 (shape (pyr ! i)))" "pyr \<noteq> []"
  shows "Suc i < length (build_pyramid_loop cv n pyr) \<Longrightarrow>
         \<not> any_lt 20 (take 2 (shape (build_pyramid_loop cv n pyr ! i)))"
  using assms
proof (induction n arbitrary: pyr)
  case 0 then show ?case by simp
next
  case (Suc n)
  show ?case
  proof (cases "any_lt 20 (take 2 (shape (last pyr)))")
    case True
    then show ?thesis using Suc.prems by simp
  next
    case False
    let ?p = "pyr @ [pyrDown cv (last pyr)]"
    have a: "\<And>j. Suc j < length ?p \<Longrightarrow> \<not> any_lt 20 (take 2 (shape (?p ! j)))"
    proof -
      fix j assume j: "Suc j < length ?p"
      show "\<not> any_lt 20 (take 2 (shape (?p ! j)))"
      proof (cases "Suc j < length pyr")
        case True then show ?thesis using Suc.prems(2) [of j] by (simp add: nth_append)
      next
        case False
        then have "j = length pyr - 1" using j by simp
        then have "?p ! j = last pyr" using Suc.prems(3) by (simp add: nth_append last_conv_nth)
        then show ?thesis using \<open>\<not> any_lt 20 (take 2 (shape (last pyr)))\<close> by simp
      qed
    qed
    have "Suc i < length (build_pyramid_loop cv n ?p)" using Suc.prems(1) False by simp
    then have "\<not> any_lt 20 (take 2 (shape (build_pyramid_loop cv n ?p ! i)))"
      using Suc.IH [of ?p] a by blast
    then show ?thesis using False by simp
  qed
qed

lemma loop_down:
  assumes "\<And>i. Suc i < length pyr \<Longrightarrow> pyr ! Suc i = pyrDown cv (pyr ! i)" "pyr \<noteq> []"
  shows "Suc i < length (build_pyramid_loop cv n pyr) \<Longrightarrow>
         build_pyramid_loop cv n pyr ! Suc i = pyrDown cv (build_pyramid_loop cv n pyr ! i)"
  using assms
proof (induction n arbitrary: pyr)
  case 0 then show ?case by simp
next
  case (Suc n)
  show ?case
  proof (cases "any_lt 20 (take 2 (shape (last pyr)))")
    case True
    then show ?thesis using Suc.prems by simp
  next
    case False
    let ?p = "pyr @ [pyrDown cv (last pyr)]"
    have a: "\<And>j. Suc j < length ?p \<Longrightarrow> ?p ! Suc j = pyrDown cv (?p ! j)"
    proof -
      fix j assume j: "Suc j < length ?p"
      show "?p ! Suc j = pyrDown cv (?p ! j)"
      proof (cases "Suc j < length pyr")
        case True then show ?thesis using Suc.prems(2) [of j] by (simp add: nth_append)
      next
        case False
        then have "j = length pyr - 1" "Suc j = length pyr" using j Suc.prems(3) by simp_all
        then show ?thesis using Suc.prems(3) by (simp add: nth_append last_conv_nth)
      qed
    qed
    have "Suc i < length (build_pyramid_loop cv n ?p)" using Suc.prems(1) False by simp
    then have "build_pyramid_loop cv n ?p ! Suc i = pyrDown cv (build_pyramid_loop cv n ?p ! i)"
      using Suc.IH [of ?p] a by blast
    then show ?thesis using False by simp
  qed
qed

lemma loop_first: "pyr \<noteq> [] \<Longrightarrow> build_pyramid_loop cv n pyr ! 0 = pyr ! 0"
  by (induction n arbitrary: pyr) (auto simp: nth_append)

lemma dims_ge_cases:
  assumes "dims_ge a b"
  obtains h w r h' w' r' where "a = h # w # r" "b = h' # w' # r'" "h' \<le> h" "w' \<le> w"
proof -
  obtain h w r where a: "a = h # w # r" using assms
    by (cases a; cases "tl a") (auto simp: dims_ge_def)
  obtain h' w' r' where b: "b = h' # w' # r'" using assms
    by (cases b; cases "tl b") (auto simp: dims_ge_def)
  show ?thesis using that [OF a b] assms by (simp add: dims_ge_def a b)
qed

lemma dims_ge_down: "dims_ge a b \<Longrightarrow> dims_ge (pyr_down_shape a) (pyr_down_shape b)"
  by (erule dims_ge_cases) (simp add: dims_ge_def div_le_mono)

lemma dims_ge_small: "dims_ge a b \<Longrightarrow> any_lt 20 (take 2 a) \<Longrightarrow> any_lt 20 (take 2 b)"
  by (erule dims_ge_cases) (auto simp: any_lt_def)

lemma steps_mono: "dims_ge a b \<Longrightarrow> pyramid_steps n b \<le> pyramid_steps n a"
proof (induction n arbitrary: a b)
  case 0 show ?case by simp
next
  case (Suc n)
  show ?case using Suc.IH [OF dims_ge_down [OF Suc.prems]] dims_ge_small [OF Suc.prems]
    by auto
qed

lemma steps_le: "pyramid_steps n sh \<le> n"
  by (induction n arbitrary: sh) auto

lemma steps_idem: "pyramid_steps (pyramid_steps n sh) sh = pyramid_steps n sh"
  by (induction n arbitrary: sh) auto

lemma pyramid_same_length:
  assumes "cv2_sizes cv" "dims_ge (shape img) (shape template)"
  shows "length (build_pyramid cv img (int (length (build_pyramid cv template levels))))
         = length (build_pyramid cv template levels)"
proof -
  let ?n = "nat (levels - 1)"
  let ?c = "pyramid_steps ?n (shape template)"
  have lt: "length (build_pyramid cv template levels) = Suc ?c"
    using loop_length [OF assms(1), of ?n "[template]"] by (simp add: build_pyramid_def)
  have li: "length (build_pyramid cv img (int (Suc ?c))) = Suc (pyramid_steps ?c (shape img))"
    using loop_length [OF assms(1), of ?c "[img]"] by (simp add: build_pyramid_def)
  have "?c = pyramid_steps ?c (shape template)" by (simp add: steps_idem)
  also have "\<dots> \<le> pyramid_steps ?c (shape img)" by (rule steps_mono [OF assms(2)])
  finally have "pyramid_steps ?c (shape img) = ?c" using steps_le [of ?c "shape img"] by simp
  then show ?thesis by (simp only: lt li)
qed

text \<open>
  C6, as the claim states it, fails: the test for a small level is made on the level
  already built, so a level of at least 20 by 20 is halved once more. A 20 by 20 image
  with 3 levels asked for gives the levels 20 by 20 and 10 by 10.
\<close>

theorem build_pyramid_small_level:
  "map shape (build_pyramid cv2_blank (blank [20, 20, 3]) 3) = [[20, 20, 3], [10, 10, 3]]
   \<and> any_lt 20 (take 2 (shape (build_pyramid cv2_blank (blank [20, 20, 3]) 3 ! 1)))"
  by (simp add: build_pyramid_def build_pyramid_loop_numeral cv2_blank_def blank_def any_lt_def)

text \<open>
  C6, amended: level 0 is the image, each further level is \<^verbatim>\<open>pyrDown\<close> of the one
  before, the loop stops when the configured count is reached or when the level built
  last has a height or width below 20 (so every level but the last has both at least
  20; the last may be smaller), and for a frame at least as large as the template the
  frame's pyramid, built with the template pyramid's length as its count, has that
  same length.
\<close>

theorem build_pyramid_levels:
  assumes "cv2_sizes cv" and "dims_ge (shape img) (shape template)"
  shows "build_pyramid cv template levels ! 0 = template
       \<and> (\<forall>i. Suc i < length (build_pyramid cv template levels) \<longrightarrow>
              build_pyramid cv template levels ! Suc i
                = pyrDown cv (build_pyramid cv template levels ! i)
            \<and> \<not> any_lt 20 (take 2 (shape (build_pyramid cv template levels ! i))))
       \<and> length (build_pyramid cv template levels) \<le> max 1 (nat levels)
       \<and> (length (build_pyramid cv template levels) = max 1 (nat levels)
            \<or> any_lt 20 (take 2 (shape (last (build_pyramid cv template levels)))))
       \<and> length (build_pyramid cv img (int (length (build_pyramid cv template levels))))
            = length (build_pyramid cv template levels)"
proof -
  let ?n = "nat (levels - 1)"
  have n: "Suc ?n = max 1 (nat levels)" by (simp add: max_def) linarith
  have first: "build_pyramid cv template levels ! 0 = template"
    by (simp add: build_pyramid_def loop_first)
  have inner: "\<forall>i. Suc i < length (build_pyramid cv template levels) \<longrightarrow>
              build_pyramid cv template levels ! Suc i
                = pyrDown cv (build_pyramid cv template levels ! i)
            \<and> \<not> any_lt 20 (take 2 (shape (build_pyramid cv template levels ! i)))"
    using loop_inner [of "[template]" _ cv ?n] loop_down [of "[template]" cv _ ?n]
    by (simp add: build_pyramid_def)
  have le: "length (build_pyramid cv template levels) \<le> max 1 (nat levels)"
    using loop_length_le [of cv ?n "[template]"] n by (simp add: build_pyramid_def)
  have stop: "length (build_pyramid cv template levels) = max 1 (nat levels)
            \<or> any_lt 20 (take 2 (shape (last (build_pyramid cv template levels))))"
    using loop_stop [of cv ?n "[template]"] n by (simp add: build_pyramid_def)
  show ?thesis
    using first inner le stop pyramid_same_length [OF assms] by blast
qed

theorem build_pyramid_levels_witness:
  "cv2_sizes cv2_blank \<and> dims_ge [100, 60, 3] [50, 40, 3]
   \<and> map shape (build_pyramid cv2_blank (blank [50, 40, 3]) 4) = [[50, 40, 3], [25, 20, 3], [13, 10, 3]]
   \<and> length (build_pyramid cv2_blank (blank [100, 60, 3]) 3) = 3"
proof -
  have d: "dims_ge (shape (blank [100, 60, 3] :: image)) (shape (blank [50, 40, 3] :: image))"
    by (simp add: dims_ge_def blank_def)
  have t: "map shape (build_pyramid cv2_blank (blank [50, 40, 3]) 4)
           = [[50, 40, 3], [25, 20, 3], [13, 10, 3]]"
    by (simp add: build_pyramid_def build_pyramid_loop_numeral cv2_blank_def blank_def any_lt_def)
  then have "length (build_pyramid cv2_blank (blank [50, 40, 3] :: image) 4) = 3"
    using length_map [of shape "build_pyramid cv2_blank (blank [50, 40, 3]) 4"] by simp
  then show ?thesis
    using build_pyramid_levels [OF cv2_sizes_blank d, of 4] d t cv2_sizes_blank
    by (simp add: blank_def)
qed

section \<open>Properties of the matching engine\<close>

lemma first_min_props:
  "xs \<noteq> [] \<Longrightarrow> snd (first_min xs) < length xs \<and> xs ! snd (first_min xs) = fst (first_min xs)"
proof (induction xs rule: first_min.induct)
  case 1 then show ?case by simp
next
  case (2 v) then show ?case by simp
next
  case (3 v u us)
  then show ?case by (auto simp: Let_def split: prod.splits)
qed

lemma first_max_props:
  "xs \<noteq> [] \<Longrightarrow> snd (first_max xs) < length xs \<and> xs ! snd (first_max xs) = fst (first_max xs)"
proof (induction xs rule: first_max.induct)
  case 1 then show ?case by simp
next
  case (2 v) then show ?case by simp
next
  case (3 v u us)
  then show ?case by (auto simp: Let_def split: prod.splits)
qed

lemma best_cell:
  assumes "find_best_match_position a m thr = Inr (True, p, cert)"
  shows "\<exists>i < length (elems a). p = (int (i mod (shape a ! 1)), int (i div (shape a ! 1)))
          \<and> can_match m thr (elems a ! i) \<and> length (shape a) = 2"
proof -
  have ne: "elems a \<noteq> []" and sh: "length (shape a) = 2"
    using assms by (auto simp: find_best_match_position_def minMaxLoc_def split: if_splits)
  show ?thesis
  proof (cases "m = TM_SQDIFF_NORMED")
    case True
    let ?i = "snd (first_min (elems a))"
    have "p = (int (?i mod (shape a ! 1)), int (?i div (shape a ! 1)))"
      and "thr \<le> 1 - fst (first_min (elems a))"
      using assms True ne sh
      by (auto simp: find_best_match_position_def minMaxLoc_def Let_def split: prod.splits)
    then show ?thesis using first_min_props [OF ne] True sh
      by (auto simp: can_match_def)
  next
    case False
    let ?i = "snd (first_max (elems a))"
    have "p = (int (?i mod (shape a ! 1)), int (?i div (shape a ! 1)))"
      and "thr \<le> fst (first_max (elems a))"
      using assms False ne sh
      by (auto simp: find_best_match_position_def minMaxLoc_def Let_def split: prod.splits)
    then show ?thesis using first_max_props [OF ne] False sh
      by (auto simp: can_match_def)
  qed
qed

lemma filter_length_less:
  assumes "length ys = length xs"
    and "\<And>j. j < length xs \<Longrightarrow> P (ys ! j) \<Longrightarrow> P (xs ! j)"
    and "i < length xs" "P (xs ! i)" "\<not> P (ys ! i)"
  shows "length (filter P ys) < length (filter P xs)"
proof -
  have "{j. j < length ys \<and> P (ys ! j)} \<subset> {j. j < length xs \<and> P (xs ! j)}"
    using assms by auto
  then have "card {j. j < length ys \<and> P (ys ! j)} < card {j. j < length xs \<and> P (xs ! j)}"
    by (intro psubset_card_mono) auto
  then show ?thesis by (simp add: length_filter_conv_card)
qed

lemma rectangle_shape [simp]: "shape (rectangle a p q v) = shape a"
  by (simp add: rectangle_def Let_def)

lemma rectangle_length [simp]: "length (elems (rectangle a p q v)) = length (elems a)"
  by (simp add: rectangle_def Let_def)

lemma rectangle_nth:
  "i < length (elems a) \<Longrightarrow>
   elems (rectangle a p q v) ! i =
     (if min (fst p) (fst q) \<le> int (i mod (shape a ! 1)) \<and> int (i mod (shape a ! 1)) \<le> max (fst p) (fst q)
        \<and> min (snd p) (snd q) \<le> int (i div (shape a ! 1)) \<and> int (i div (shape a ! 1)) \<le> max (snd p) (snd q)
      then v else elems a ! i)"
  by (simp add: rectangle_def Let_def)

lemma method_of_sqdiff:
  "method_of s = Some m \<Longrightarrow> (s = ''sqdiff-normed'') = (m = TM_SQDIFF_NORMED)"
  by (auto simp: method_of_def split: if_splits)

lemma find_best_matched:
  "find_best_match_position a m thr = Inr (b, p, cert) \<Longrightarrow> b = (thr \<le> cert)"
  by (auto simp: find_best_match_position_def Let_def split: sum.splits prod.splits if_splits)

lemma resume_masked:
  assumes ok: "cand_ok template mp c" and m: "c_matched c"
  obtains hm i where
    "candidates_resume template mp c =
       (case find_best_match_position hm (c_method c) (c_threshold c) of
          Inl e \<Rightarrow> Raise e
        | Inr (b, p, certainty) \<Rightarrow>
            Next (c\<lparr> c_heatmap := hm, c_i := c_i c + 1, c_matched := b,
                     c_region := Region (fst p) (snd p) (int (shape template ! 1))
                                   (int (shape template ! 0)),
                     c_certainty := certainty \<rparr>))"
    "shape hm = shape (c_heatmap c)" "length (shape hm) = 2"
    "length (elems hm) = length (elems (c_heatmap c))"
    "i < length (elems (c_heatmap c))"
    "can_match (c_method c) (c_threshold c) (elems (c_heatmap c) ! i)"
    "elems hm ! i = (if match_method mp = ''sqdiff-normed'' then 255 else 0)"
    "\<And>j. j < length (elems (c_heatmap c)) \<Longrightarrow>
       elems hm ! j = (if match_method mp = ''sqdiff-normed'' then 255 else 0)
       \<or> elems hm ! j = elems (c_heatmap c) ! j"
proof -
  from ok m obtain x y where
    lv: "c_level c = 0" and th: "1 \<le> shape template ! 0" and tw: "1 \<le> shape template ! 1"
    and reg: "c_region c = Region x y (int (shape template ! 1)) (int (shape template ! 0))"
    and best: "find_best_match_position (c_heatmap c) (c_method c) (c_threshold c)
                 = Inr (True, (x, y), c_certainty c)"
    by (auto simp: cand_ok_def)
  let ?w = "int (shape template ! 1)" and ?h = "int (shape template ! 0)"
  let ?mv = "if match_method mp = ''sqdiff-normed'' then 255 else 0 :: real"
  define ex where "ex = region_extend (c_region c) (- (region_width (c_region c) - 1))
               (- (region_height (c_region c) - 1))"
  define hm where "hm = rectangle (c_heatmap c) (region_x ex, region_y ex)
               (region_right ex - 1, region_bottom ex - 1) ?mv"
  have ex: "region_x ex = x - (?w - 1)" "region_y ex = y - (?h - 1)"
    "region_right ex - 1 = x + (?w - 1)" "region_bottom ex - 1 = y + (?h - 1)"
    by (simp_all add: ex_def reg region_right_def region_bottom_def)
  have res: "candidates_resume template mp c =
     (case find_best_match_position hm (c_method c) (c_threshold c) of
        Inl e \<Rightarrow> Raise e
      | Inr (b, p, certainty) \<Rightarrow>
          Next (c\<lparr> c_heatmap := hm, c_i := c_i c + 1, c_matched := b,
                   c_region := Region (fst p) (snd p) ?w ?h, c_certainty := certainty \<rparr>))"
    unfolding candidates_resume_def Let_def hm_def ex_def by (simp only: m lv simp_thms if_False)
  from best_cell [OF best] obtain i where i: "i < length (elems (c_heatmap c))"
    and xy: "(x, y) = (int (i mod (shape (c_heatmap c) ! 1)), int (i div (shape (c_heatmap c) ! 1)))"
    and cm: "can_match (c_method c) (c_threshold c) (elems (c_heatmap c) ! i)"
    and sh: "length (shape (c_heatmap c)) = 2"
    by blast
  have inside: "elems hm ! i = ?mv"
    using i xy th tw unfolding hm_def by (simp add: rectangle_nth ex)
  have other: "elems hm ! j = ?mv \<or> elems hm ! j = elems (c_heatmap c) ! j"
    if "j < length (elems (c_heatmap c))" for j
    using that unfolding hm_def by (simp add: rectangle_nth)
  show ?thesis
    using that [OF res _ _ _ i cm inside other] sh by (simp add: hm_def)
qed

lemma resume_cases:
  assumes ok: "cand_ok template mp c" and m: "c_matched c"
  obtains c' where "candidates_resume template mp c = Next c'" "cand_ok template mp c'"
     "c_threshold c' = c_threshold c" "c_method c' = c_method c"
     "mask_safe mp c \<Longrightarrow> unmasked (c_method c') (c_threshold c') (c_heatmap c')
        < unmasked (c_method c) (c_threshold c) (c_heatmap c)"
   | e where "candidates_resume template mp c = Raise e"
proof -
  from ok m have lv: "c_level c = 0" and th: "1 \<le> shape template ! 0"
    and tw: "1 \<le> shape template ! 1"
    and meth: "method_of (match_method mp) = Some (c_method c)" and thr: "0 \<le> c_threshold c"
    by (auto simp: cand_ok_def)
  let ?w = "int (shape template ! 1)" and ?h = "int (shape template ! 0)"
  let ?mv = "if match_method mp = ''sqdiff-normed'' then 255 else 0 :: real"
  obtain hm i where
    res: "candidates_resume template mp c =
       (case find_best_match_position hm (c_method c) (c_threshold c) of
          Inl e \<Rightarrow> Raise e
        | Inr (b, p, certainty) \<Rightarrow>
            Next (c\<lparr> c_heatmap := hm, c_i := c_i c + 1, c_matched := b,
                     c_region := Region (fst p) (snd p) ?w ?h, c_certainty := certainty \<rparr>))"
    and "shape hm = shape (c_heatmap c)" and "length (shape hm) = 2"
    and len: "length (elems hm) = length (elems (c_heatmap c))"
    and i: "i < length (elems (c_heatmap c))"
    and cm: "can_match (c_method c) (c_threshold c) (elems (c_heatmap c) ! i)"
    and inside: "elems hm ! i = ?mv"
    and other: "\<And>j. j < length (elems (c_heatmap c)) \<Longrightarrow>
       elems hm ! j = ?mv \<or> elems hm ! j = elems (c_heatmap c) ! j"
    by (rule resume_masked [OF ok m]) blast
  show ?thesis
  proof (cases "find_best_match_position hm (c_method c) (c_threshold c)")
    case (Inl e)
    then show ?thesis using that(2) res by simp
  next
    case (Inr t)
    obtain b p certainty where t: "t = (b, p, certainty)" by (cases t) auto
    let ?c' = "c\<lparr> c_heatmap := hm, c_i := c_i c + 1, c_matched := b,
                   c_region := Region (fst p) (snd p) ?w ?h, c_certainty := certainty \<rparr>"
    have nx: "candidates_resume template mp c = Next ?c'" using res Inr t by simp
    have ok': "cand_ok template mp ?c'"
      using meth thr lv th tw Inr t find_best_matched [of hm "c_method c" "c_threshold c" b p certainty]
      by (auto simp: cand_ok_def)
    have dec: "unmasked (c_method ?c') (c_threshold ?c') (c_heatmap ?c')
        < unmasked (c_method c) (c_threshold c) (c_heatmap c)" if safe: "mask_safe mp c"
    proof -
      have nomask: "\<not> can_match (c_method c) (c_threshold c) ?mv"
        using safe thr method_of_sqdiff [OF meth] by (auto simp: can_match_def mask_safe_def)
      have "length (filter (can_match (c_method c) (c_threshold c)) (elems hm))
            < length (filter (can_match (c_method c) (c_threshold c)) (elems (c_heatmap c)))"
      proof (rule filter_length_less [where i = i])
        show "length (elems hm) = length (elems (c_heatmap c))" by (rule len)
        show "i < length (elems (c_heatmap c))" by (rule i)
        show "can_match (c_method c) (c_threshold c) (elems (c_heatmap c) ! i)" by (rule cm)
        show "\<not> can_match (c_method c) (c_threshold c) (elems hm ! i)"
          using nomask inside by simp
        fix j assume j: "j < length (elems (c_heatmap c))"
          and "can_match (c_method c) (c_threshold c) (elems hm ! j)"
        then show "can_match (c_method c) (c_threshold c) (elems (c_heatmap c) ! j)"
          using nomask other [OF j] by auto
      qed
      then show ?thesis by (simp add: unmasked_def)
    qed
    show ?thesis using that(1) [OF nx ok' _ _ dec] by simp
  qed
qed

lemma first_max_ge: "v \<in> set xs \<Longrightarrow> v \<le> fst (first_max xs)"
proof (induction xs rule: first_max.induct)
  case 1 then show ?case by simp
next
  case (2 u) then show ?case by simp
next
  case (3 u w ws)
  then show ?case by (auto simp: Let_def split: prod.splits)
qed

lemma find_best_max:
  assumes "m \<noteq> TM_SQDIFF_NORMED" "elems a \<noteq> []" "length (shape a) = 2"
  shows "find_best_match_position a m thr =
           Inr (thr \<le> fst (first_max (elems a)),
                (int (snd (first_max (elems a)) mod (shape a ! 1)),
                 int (snd (first_max (elems a)) div (shape a ! 1))),
                fst (first_max (elems a)))"
  using assms by (simp add: find_best_match_position_def minMaxLoc_def Let_def split_beta)

lemma resume_unsafe:
  assumes ok: "cand_ok template mp c" and m: "c_matched c" and unsafe: "\<not> mask_safe mp c"
  obtains c' where "candidates_resume template mp c = Next c'" "cand_ok template mp c'"
     "c_matched c'" "\<not> mask_safe mp c'"
proof -
  from ok have meth: "method_of (match_method mp) = Some (c_method c)"
    and thr: "0 \<le> c_threshold c"
    by (auto simp: cand_ok_def)
  have thr0: "c_threshold c = 0" and ns: "match_method mp \<noteq> ''sqdiff-normed''"
    using unsafe thr by (auto simp: mask_safe_def)
  then have nsq: "c_method c \<noteq> TM_SQDIFF_NORMED" using method_of_sqdiff [OF meth] by simp
  obtain hm i where
    res: "candidates_resume template mp c =
       (case find_best_match_position hm (c_method c) (c_threshold c) of
          Inl e \<Rightarrow> Raise e
        | Inr (b, p, certainty) \<Rightarrow>
            Next (c\<lparr> c_heatmap := hm, c_i := c_i c + 1, c_matched := b,
                     c_region := Region (fst p) (snd p) (int (shape template ! 1))
                                   (int (shape template ! 0)),
                     c_certainty := certainty \<rparr>))"
    and "shape hm = shape (c_heatmap c)"
    and sh: "length (shape hm) = 2"
    and len: "length (elems hm) = length (elems (c_heatmap c))"
    and i: "i < length (elems (c_heatmap c))"
    and "can_match (c_method c) (c_threshold c) (elems (c_heatmap c) ! i)"
    and inside: "elems hm ! i = (if match_method mp = ''sqdiff-normed'' then 255 else 0)"
    and "\<And>j. j < length (elems (c_heatmap c)) \<Longrightarrow>
       elems hm ! j = (if match_method mp = ''sqdiff-normed'' then 255 else 0)
       \<or> elems hm ! j = elems (c_heatmap c) ! j"
    by (rule resume_masked [OF ok m]) blast
  have ne: "elems hm \<noteq> []" using i len by auto
  have "elems hm ! i \<in> set (elems hm)" using i len by simp
  then have "0 \<le> fst (first_max (elems hm))" using first_max_ge [of "elems hm ! i" "elems hm"] inside ns
    by simp
  then obtain p cert where fb: "find_best_match_position hm (c_method c) (c_threshold c) = Inr (True, p, cert)"
    using find_best_max [OF nsq ne sh, of "c_threshold c"] thr0 by simp
  let ?c' = "c\<lparr> c_heatmap := hm, c_i := c_i c + 1, c_matched := True,
                 c_region := Region (fst p) (snd p) (int (shape template ! 1))
                               (int (shape template ! 0)),
                 c_certainty := cert \<rparr>"
  have nx: "candidates_resume template mp c = Next ?c'" using res fb by simp
  from ok m nx obtain c'' where "Next ?c' = Next c''" "cand_ok template mp c''"
    by (cases rule: resume_cases) auto
  then have "cand_ok template mp ?c'" by simp
  moreover have "\<not> mask_safe mp ?c'" using unsafe by (simp add: mask_safe_def)
  ultimately show ?thesis using that [OF nx] by simp
qed

lemma run_shape_cons:
  "matched f \<Longrightarrow> run_shape r \<Longrightarrow> run_shape (run_cons f r)"
  by (cases r) (auto simp: run_shape_def run_cons_def split: option.splits)

lemma resume_Stop: "candidates_resume template mp c = Stop \<longleftrightarrow> \<not> c_matched c"
  by (auto simp: candidates_resume_def Let_def split: sum.splits prod.splits)

lemma loop_shape:
  assumes "find_matches_loop cv img template mp c = Some r"
  shows "run_shape r"
proof (rule find_matches_loop.raw_induct [where P = "\<lambda>_ _ _ _ _ r. run_shape r", OF _ assms],
    goal_cases)
  case (1 loop cv img template mp c r)
  show ?case
  proof (cases "if c_matched c then confirm_match cv img (c_region c) template mp else Inr False")
    case (Inl e)
    then show ?thesis using 1(2) by (auto simp: run_shape_def)
  next
    case (Inr confirmed)
    let ?f = "\<lparr> matched = confirmed, found_region = c_region c,
                 first_pass_matched = c_matched c, first_pass_certainty = c_certainty c \<rparr>"
    show ?thesis
    proof (cases confirmed)
      case False
      then show ?thesis using 1(2) Inr by (auto simp: run_shape_def)
    next
      case True
      show ?thesis
      proof (cases "candidates_resume template mp c")
        case (Next c')
        then obtain r' where r': "loop cv img template mp c' = Some r'" and r: "r = run_cons ?f r'"
          using 1(2) Inr True by (auto simp: Let_def split: Option.bind_splits)
        show ?thesis using run_shape_cons [of ?f r'] 1(1) [OF r'] True r by simp
      next
        case Stop
        then have "\<not> c_matched c" by (simp add: resume_Stop)
        then show ?thesis using Inr True by simp
      next
        case (Raise e)
        then show ?thesis using 1(2) Inr True by (auto simp: run_shape_def)
      qed
    qed
  qed
qed


lemma loop_diverges:
  assumes "cand_ok template mp c" and "c_matched c" and "\<not> mask_safe mp c"
    and "confirm_method mp = ''none''"
  shows "find_matches_loop cv img template mp c = None"
proof (rule ccontr)
  assume "find_matches_loop cv img template mp c \<noteq> None"
  then obtain r where r: "find_matches_loop cv img template mp c = Some r" by auto
  have "cand_ok template mp c \<and> c_matched c \<and> \<not> mask_safe mp c \<and> confirm_method mp = ''none''
        \<longrightarrow> False"
  proof (rule find_matches_loop.raw_induct
      [where P = "\<lambda>cv img template mp c r.
         cand_ok template mp c \<and> c_matched c \<and> \<not> mask_safe mp c \<and> confirm_method mp = ''none''
         \<longrightarrow> False", OF _ r], goal_cases)
    case (1 loop cv img template mp c r)
    show ?case
    proof
      assume a: "cand_ok template mp c \<and> c_matched c \<and> \<not> mask_safe mp c
                 \<and> confirm_method mp = ''none''"
      then obtain c' where nx: "candidates_resume template mp c = Next c'"
        and c': "cand_ok template mp c'" "c_matched c'" "\<not> mask_safe mp c'"
        using resume_unsafe [of template mp c] by blast
      have "confirm_match cv img (c_region c) template mp = Inr True"
        using a by (simp add: confirm_match_def)
      then obtain r' where "loop cv img template mp c' = Some r'"
        using 1(2) a nx by (auto simp: Let_def split: Option.bind_splits)
      then show False using 1(1) c' a by blast
    qed
  qed
  then show False using assms by simp
qed

lemma search_levels_result:
  "search_levels cv mp m ip tp roi lv = Inr s \<Longrightarrow>
     0 \<le> s_threshold s
     \<and> find_best_match_position (s_heatmap s) m (s_threshold s)
         = Inr (s_matched s, s_best_match_position s, s_certainty s)
     \<and> (s_matched s \<longrightarrow> s_level s = last lv)
     \<and> s_level s \<in> set lv
     \<and> s_threshold s = max 0 (match_threshold mp - (if s_level s > 0 then 2 / 10 else 0))"
proof (induction cv mp m ip tp roi lv rule: search_levels.induct)
  case (1 cv mp m ip tp roi)
  then show ?case by simp
next
  case (2 cv mp m ip tp roi level rest)
  from "2.prems" have inr: "\<not> (length ip \<le> level \<or> length tp \<le> level)"
    by (auto split: if_splits)
  from "2.prems" inr obtain heatmap where hm:
    "match_template cv (ip ! level) (tp ! level) m (upsample_roi cv roi) = Inr heatmap"
    by (auto split: sum.splits)
  let ?thr = "max 0 (match_threshold mp - (if level > 0 then 2 / 10 else 0))"
  from "2.prems" inr hm obtain b p cert where fb:
    "find_best_match_position heatmap m ?thr = Inr (b, p, cert)"
    by (auto simp: Let_def split: sum.splits)
  show ?case
  proof (cases "\<not> b \<or> rest = []")
    case True
    then have "s = \<lparr> s_heatmap = heatmap, s_threshold = ?thr, s_matched = b,
                     s_best_match_position = p, s_certainty = cert, s_level = level \<rparr>"
      using "2.prems" inr hm fb by (auto simp: Let_def)
    then show ?thesis using fb True by auto
  next
    case False
    then have rec: "search_levels cv mp m ip tp
              (Some (threshold_heatmap heatmap (if m = TM_SQDIFF_NORMED then 1 - ?thr else ?thr)
                       (m = TM_SQDIFF_NORMED))) rest = Inr s"
      using "2.prems" inr hm fb by (auto simp: Let_def)
    have "0 \<le> s_threshold s
     \<and> find_best_match_position (s_heatmap s) m (s_threshold s)
         = Inr (s_matched s, s_best_match_position s, s_certainty s)
     \<and> (s_matched s \<longrightarrow> s_level s = last rest)
     \<and> s_level s \<in> set rest
     \<and> s_threshold s = max 0 (match_threshold mp - (if s_level s > 0 then 2 / 10 else 0))"
      using "2.IH" [OF inr hm refl fb refl refl False rec] .
    then show ?thesis using False by auto
  qed
qed


lemma upsample_0 [simp]: "upsample p 0 = p"
  by (simp add: upsample_def)

lemma candidates_start_Inr:
  assumes "candidates_start cv levels img template mp = Inr c"
  obtains m s where "method_of (match_method mp) = Some m" "0 < levels"
    "search_levels cv mp m (build_pyramid cv img (int (length (build_pyramid cv template levels))))
       (build_pyramid cv template levels) None
       (rev [0..<length (build_pyramid cv template levels)]) = Inr s"
    "c = \<lparr> c_method = m, c_threshold = s_threshold s, c_level = s_level s,
                   c_heatmap = s_heatmap s, c_i = 0, c_matched = s_matched s,
                   c_region = Region (fst (upsample (s_best_match_position s) (s_level s)))
                                (snd (upsample (s_best_match_position s) (s_level s)))
                                (int (shape template ! 1)) (int (shape template ! 0)),
                   c_certainty = s_certainty s \<rparr>"
proof -
  obtain m where m: "method_of (match_method mp) = Some m"
    using assms by (cases "method_of (match_method mp)") (simp_all add: candidates_start_def)
  have lv: "0 < levels"
    using assms m by (cases "levels \<le> 0") (simp_all add: candidates_start_def)
  let ?tp = "build_pyramid cv template levels"
  let ?ip = "build_pyramid cv img (int (length ?tp))"
  obtain s where s: "search_levels cv mp m ?ip ?tp None (rev [0..<length ?tp]) = Inr s"
    using assms m lv
    by (cases "search_levels cv mp m ?ip ?tp None (rev [0..<length ?tp])")
       (simp_all add: candidates_start_def Let_def)
  have "c = \<lparr> c_method = m, c_threshold = s_threshold s, c_level = s_level s,
                   c_heatmap = s_heatmap s, c_i = 0, c_matched = s_matched s,
                   c_region = Region (fst (upsample (s_best_match_position s) (s_level s)))
                                (snd (upsample (s_best_match_position s) (s_level s)))
                                (int (shape template ! 1)) (int (shape template ! 0)),
                   c_certainty = s_certainty s \<rparr>"
    using assms m lv s by (simp add: candidates_start_def Let_def)
  then show ?thesis using that m lv s by blast
qed

lemma start_ok:
  assumes "candidates_start cv levels img template mp = Inr c"
    and "1 \<le> shape template ! 0" "1 \<le> shape template ! 1"
  shows "cand_ok template mp c"
proof -
  let ?tp = "build_pyramid cv template levels"
  from assms(1) obtain m s where m: "method_of (match_method mp) = Some m"
    and s: "search_levels cv mp m (build_pyramid cv img (int (length ?tp))) ?tp None
              (rev [0..<length ?tp]) = Inr s"
    and c: "c = \<lparr> c_method = m, c_threshold = s_threshold s, c_level = s_level s,
                   c_heatmap = s_heatmap s, c_i = 0, c_matched = s_matched s,
                   c_region = Region (fst (upsample (s_best_match_position s) (s_level s)))
                                (snd (upsample (s_best_match_position s) (s_level s)))
                                (int (shape template ! 1)) (int (shape template ! 0)),
                   c_certainty = s_certainty s \<rparr>"
    by (rule candidates_start_Inr)
  note r = search_levels_result [OF s]
  have ne: "length ?tp \<noteq> 0" using s by (cases "length ?tp") auto
  then have last0: "last (rev [0..<length ?tp]) = 0"
    by (simp add: last_rev hd_upt)
  have eq: "s_matched s = (s_threshold s \<le> s_certainty s)"
    using r find_best_matched by blast
  have "s_matched s \<longrightarrow> s_level s = last (rev [0..<length ?tp])" using r by blast
  then have l0: "s_matched s \<Longrightarrow> s_level s = 0" using last0 by simp
  have fb: "find_best_match_position (s_heatmap s) m (s_threshold s)
         = Inr (s_matched s, s_best_match_position s, s_certainty s)" using r by blast
  have thr: "0 \<le> s_threshold s" using r by blast
  show ?thesis
    unfolding cand_ok_def c using m thr eq l0 fb assms(2,3) by (cases "s_matched s") simp_all
qed

lemma start_threshold:
  assumes "candidates_start cv levels img template mp = Inr c"
  shows "c_threshold c = max 0 (match_threshold mp - (if c_level c > 0 then 2 / 10 else 0))"
proof -
  let ?tp = "build_pyramid cv template levels"
  from assms(1) obtain m s where
    s: "search_levels cv mp m (build_pyramid cv img (int (length ?tp))) ?tp None
              (rev [0..<length ?tp]) = Inr s"
    and c: "c = \<lparr> c_method = m, c_threshold = s_threshold s, c_level = s_level s,
                   c_heatmap = s_heatmap s, c_i = 0, c_matched = s_matched s,
                   c_region = Region (fst (upsample (s_best_match_position s) (s_level s)))
                                (snd (upsample (s_best_match_position s) (s_level s)))
                                (int (shape template ! 1)) (int (shape template ! 0)),
                   c_certainty = s_certainty s \<rparr>"
    by (rule candidates_start_Inr)
  have "s_threshold s = max 0 (match_threshold mp - (if s_level s > 0 then 2 / 10 else 0))"
    using search_levels_result [OF s] by blast
  then show ?thesis by (simp add: c)
qed


lemma write_view_shape [simp]: "shape (write_view dst ys xs src) = shape dst"
  by (simp add: write_view_def Let_def split: prod.splits)

lemma write_view_length [simp]: "length (elems (write_view dst ys xs src)) = length (elems dst)"
  by (simp add: write_view_def Let_def split: prod.splits)











lemma accepted_find_matches:
  assumes "accepted img template"
  shows "find_matches cv levels img template mp =
           (case candidates_start cv levels img template mp of
              Inl e \<Rightarrow> Some (Run [] (Some e))
            | Inr c \<Rightarrow> find_matches_loop cv img template mp c)"
  using assms unfolding find_matches_def accepted_def dims_ge_def
  by (auto simp: not_less)

lemma accepted_dims:
  assumes "accepted img template"
  shows "1 \<le> shape template ! 0" "1 \<le> shape template ! 1"
proof -
  from assms obtain a b c where "shape template = [a, b, c]"
    unfolding accepted_def by (cases "shape template"; cases "tl (shape template)";
      cases "tl (tl (shape template))") auto
  then show "1 \<le> shape template ! 0" "1 \<le> shape template ! 1"
    using assms by (auto simp: accepted_def any_lt_def)
qed

lemma start_threshold_inv:
  assumes "candidates_start cv levels img template mp = Inr c" "cand_ok template mp c"
  shows "threshold_inv mp c"
proof -
  have t: "c_threshold c = max 0 (match_threshold mp - (if c_level c > 0 then 2 / 10 else 0))"
    by (rule start_threshold [OF assms(1)])
  have "c_matched c \<Longrightarrow> c_level c = 0" using assms(2) by (simp add: cand_ok_def)
  then show ?thesis using t by (auto simp: threshold_inv_def)
qed


lemma find_matches_diverges:
  assumes acc: "accepted img template"
    and c: "candidates_start cv levels img template mp = Inr c" and m: "c_matched c"
    and unsafe: "match_method mp \<noteq> ''sqdiff-normed''" "match_threshold mp \<le> 0"
    and conf: "confirm_method mp = ''none''"
  shows "find_matches cv levels img template mp = None"
proof -
  have ok: "cand_ok template mp c" by (rule start_ok [OF c accepted_dims [OF acc]])
  have "c_threshold c = max 0 (match_threshold mp)"
    using start_threshold_inv [OF c ok] m by (simp add: threshold_inv_def)
  then have "\<not> mask_safe mp c" using unsafe by (simp add: mask_safe_def)
  then have "find_matches_loop cv img template mp c = None"
    by (rule loop_diverges [OF ok m _ conf])
  then show ?thesis using accepted_find_matches [OF acc] c by simp
qed

text \<open>
  The run on the three-pixel frame: the template is found and confirmed at x = 0 and at
  x = 2; the third candidate, at x = 1, passes the first pass with certainty 0.95 and
  fails the confirmation (the pixels differ by 50, more than 0.16 * 255), which ends
  the sequence.
\<close>

lemma start3: "candidates_start (cv2_with heatmap3) 1 frame3 (pixel 250) mp_absdiff
   = Inr \<lparr> c_method = TM_SQDIFF_NORMED, c_threshold = 8 / 10, c_level = 0,
           c_heatmap = NDArray [1, 3] [0, 5 / 100, 0], c_i = 0, c_matched = True,
           c_region = Region 0 0 1 1, c_certainty = 1 \<rparr>"
  by code_simp

lemma confirm3_0: "confirm_match (cv2_with heatmap3) frame3 (Region 0 0 1 1) (pixel 250) mp_absdiff = Inr True"
  by code_simp

lemma resume3_0: "candidates_resume (pixel 250) mp_absdiff
     \<lparr> c_method = TM_SQDIFF_NORMED, c_threshold = 8 / 10, c_level = 0,
       c_heatmap = NDArray [1, 3] [0, 5 / 100, 0], c_i = 0, c_matched = True,
       c_region = Region 0 0 1 1, c_certainty = 1 \<rparr>
   = Next \<lparr> c_method = TM_SQDIFF_NORMED, c_threshold = 8 / 10, c_level = 0,
       c_heatmap = NDArray [1, 3] [255, 5 / 100, 0], c_i = 1, c_matched = True,
       c_region = Region 2 0 1 1, c_certainty = 1 \<rparr>"
  by code_simp

lemma confirm3_1: "confirm_match (cv2_with heatmap3) frame3 (Region 2 0 1 1) (pixel 250) mp_absdiff = Inr True"
  by code_simp

lemma resume3_1: "candidates_resume (pixel 250) mp_absdiff
     \<lparr> c_method = TM_SQDIFF_NORMED, c_threshold = 8 / 10, c_level = 0,
       c_heatmap = NDArray [1, 3] [255, 5 / 100, 0], c_i = 1, c_matched = True,
       c_region = Region 2 0 1 1, c_certainty = 1 \<rparr>
   = Next \<lparr> c_method = TM_SQDIFF_NORMED, c_threshold = 8 / 10, c_level = 0,
       c_heatmap = NDArray [1, 3] [255, 5 / 100, 255], c_i = 2, c_matched = True,
       c_region = Region 1 0 1 1, c_certainty = 95 / 100 \<rparr>"
  by code_simp

lemma confirm3_2: "confirm_match (cv2_with heatmap3) frame3 (Region 1 0 1 1) (pixel 250) mp_absdiff = Inr False"
  by code_simp

lemma acc3: "accepted frame3 (pixel 250)"
  by (simp add: accepted_def dims_ge_def frame3_def pixel_def any_lt_def)

lemma loop_step_confirmed:
  assumes "c_matched c" "confirm_match cv img (c_region c) template mp = Inr True"
    and "candidates_resume template mp c = Next c'"
    and "find_matches_loop cv img template mp c' = Some r"
  shows "find_matches_loop cv img template mp c =
           Some (run_cons \<lparr> matched = True, found_region = c_region c,
                            first_pass_matched = True, first_pass_certainty = c_certainty c \<rparr> r)"
  using assms by (subst find_matches_loop.simps) simp

lemma loop_step_unconfirmed:
  assumes "c_matched c" "confirm_match cv img (c_region c) template mp = Inr False"
  shows "find_matches_loop cv img template mp c =
           Some (Run [\<lparr> matched = False, found_region = c_region c,
                        first_pass_matched = True, first_pass_certainty = c_certainty c \<rparr>] None)"
  using assms by (subst find_matches_loop.simps) simp

lemma loop_step_unmatched:
  assumes "\<not> c_matched c"
  shows "find_matches_loop cv img template mp c =
           Some (Run [\<lparr> matched = False, found_region = c_region c,
                        first_pass_matched = False, first_pass_certainty = c_certainty c \<rparr>] None)"
  using assms by (subst find_matches_loop.simps) simp

lemma run3:
  "find_matches (cv2_with heatmap3) 1 frame3 (pixel 250) mp_absdiff
   = Some (Run [\<lparr> matched = True, found_region = Region 0 0 1 1,
                    first_pass_matched = True, first_pass_certainty = 1 \<rparr>,
                 \<lparr> matched = True, found_region = Region 2 0 1 1,
                    first_pass_matched = True, first_pass_certainty = 1 \<rparr>,
                 \<lparr> matched = False, found_region = Region 1 0 1 1,
                    first_pass_matched = True, first_pass_certainty = 95 / 100 \<rparr>] None)"
proof -
  let ?cv = "cv2_with heatmap3"
  let ?C0 = "\<lparr> c_method = TM_SQDIFF_NORMED, c_threshold = 8 / 10, c_level = 0,
           c_heatmap = NDArray [1, 3] [0, 5 / 100, 0], c_i = 0, c_matched = True,
           c_region = Region 0 0 1 1, c_certainty = 1 \<rparr>"
  let ?C1 = "\<lparr> c_method = TM_SQDIFF_NORMED, c_threshold = 8 / 10, c_level = 0,
       c_heatmap = NDArray [1, 3] [255, 5 / 100, 0], c_i = 1, c_matched = True,
       c_region = Region 2 0 1 1, c_certainty = 1 \<rparr>"
  let ?C2 = "\<lparr> c_method = TM_SQDIFF_NORMED, c_threshold = 8 / 10, c_level = 0,
       c_heatmap = NDArray [1, 3] [255, 5 / 100, 255], c_i = 2, c_matched = True,
       c_region = Region 1 0 1 1, c_certainty = 95 / 100 \<rparr>"
  have l2: "find_matches_loop ?cv frame3 (pixel 250) mp_absdiff ?C2 =
       Some (Run [\<lparr> matched = False, found_region = Region 1 0 1 1,
                    first_pass_matched = True, first_pass_certainty = 95 / 100 \<rparr>] None)"
    using loop_step_unconfirmed [of ?C2 ?cv frame3 "pixel 250" mp_absdiff] confirm3_2 by simp
  have l1: "find_matches_loop ?cv frame3 (pixel 250) mp_absdiff ?C1 =
       Some (Run [\<lparr> matched = True, found_region = Region 2 0 1 1,
                    first_pass_matched = True, first_pass_certainty = 1 \<rparr>,
                  \<lparr> matched = False, found_region = Region 1 0 1 1,
                    first_pass_matched = True, first_pass_certainty = 95 / 100 \<rparr>] None)"
    using loop_step_confirmed [of ?C1 ?cv frame3 "pixel 250" mp_absdiff ?C2, OF _ _ resume3_1 l2] confirm3_1
    by (simp add: run_cons_def)
  have l0: "find_matches_loop ?cv frame3 (pixel 250) mp_absdiff ?C0 =
       Some (Run [\<lparr> matched = True, found_region = Region 0 0 1 1,
                    first_pass_matched = True, first_pass_certainty = 1 \<rparr>,
                  \<lparr> matched = True, found_region = Region 2 0 1 1,
                    first_pass_matched = True, first_pass_certainty = 1 \<rparr>,
                  \<lparr> matched = False, found_region = Region 1 0 1 1,
                    first_pass_matched = True, first_pass_certainty = 95 / 100 \<rparr>] None)"
    using loop_step_confirmed [of ?C0 ?cv frame3 "pixel 250" mp_absdiff ?C1, OF _ _ resume3_0 l1] confirm3_0
    by (simp add: run_cons_def)
  show ?thesis
    by (simp only: accepted_find_matches [OF acc3] start3 sum.case l0)
qed




text \<open>
  Where the value written over an excluded rectangle can itself match, the search never
  runs out of matches: with the correlation methods the value is 0, and a threshold of 0
  accepts it. One match is then followed by matches for ever.
\<close>

lemma start1:
  "candidates_start (cv2_with (NDArray [1, 1] [1])) 1 (pixel 200) (pixel 200) mp_ccorr0
   = Inr \<lparr> c_method = TM_CCORR_NORMED, c_threshold = 0, c_level = 0,
           c_heatmap = NDArray [1, 1] [1], c_i = 0, c_matched = True,
           c_region = Region 0 0 1 1, c_certainty = 1 \<rparr>"
  by code_simp

lemma acc1: "accepted (pixel 200) (pixel 200)"
  by (simp add: accepted_def dims_ge_def pixel_def any_lt_def)

text \<open>
  C1: the code breaks the claim. The parameters are accepted by \<^verbatim>\<open>MatchParameters\<close>, the
  frame and the template (the same single pixel) pass the checks, and the engine's
  sequence never ends: it has no result that is not a match.
\<close>

theorem find_matches_no_terminator:
  "MatchParameters ''ccorr-normed'' 0 ''none'' (16 / 100) 1 = Inr mp_ccorr0
   \<and> accepted (pixel 200) (pixel 200)
   \<and> find_matches (cv2_with (NDArray [1, 1] [1])) 1 (pixel 200) (pixel 200) mp_ccorr0 = None"
proof -
  have "find_matches (cv2_with (NDArray [1, 1] [1])) 1 (pixel 200) (pixel 200) mp_ccorr0 = None"
    by (rule find_matches_diverges [OF acc1 start1]) (simp_all add: mp_ccorr0_def)
  moreover have "MatchParameters ''ccorr-normed'' 0 ''none'' (16 / 100) 1 = Inr mp_ccorr0"
    by (simp add: MatchParameters_def mp_ccorr0_def)
  ultimately show ?thesis using acc1 by simp
qed

theorem find_matches_no_terminator_witness:
  "match_method mp_ccorr0 = ''ccorr-normed'' \<and> match_threshold mp_ccorr0 = 0
   \<and> confirm_method mp_ccorr0 = ''none''
   \<and> find_matches (cv2_with (NDArray [1, 1] [1])) 1 (pixel 200) (pixel 200) mp_ccorr0 = None"
  using find_matches_no_terminator by (simp add: mp_ccorr0_def)

section \<open>Properties of the confirmation pass\<close>

lemma int_trunc_threshold:
  assumes "0 \<le> r"
  shows "(int_trunc r < uint (d :: 8 word)) = (r < real_of_int (uint d))"
  using assms by (simp add: int_trunc_def floor_less_iff)

lemma absdiff_int:
  "\<bar>uint (p :: 8 word) - uint q\<bar> = uint (if p \<le> q then q - p else p - q)"
proof (cases "p \<le> q")
  case True
  then have "uint (q - p) = uint q - uint p" by (simp flip: uint_minus_simple_alt)
  moreover have "uint p \<le> uint q" using True by (simp add: word_le_def)
  ultimately show ?thesis using True by simp
next
  case False
  then have qp: "q \<le> p" by simp
  then have "uint (p - q) = uint p - uint q" by (simp flip: uint_minus_simple_alt)
  moreover have "uint q \<le> uint p" using qp by (simp add: word_le_def)
  ultimately show ?thesis using False by simp
qed

lemma absdiff_real:
  "\<bar>real (unat (p :: 8 word)) - real (unat q)\<bar>
     = real_of_int (uint (if p \<le> q then q - p else p - q))"
proof -
  have "\<bar>real (unat p) - real (unat q)\<bar> = real_of_int \<bar>uint p - uint q\<bar>" by simp
  then show ?thesis by (simp only: absdiff_int)
qed

lemma count_zero: "(countNonZero a = 0) = list_all (\<lambda>v. v = 0) (elems a)"
  by (simp add: countNonZero_def list_all_iff filter_empty_conv)

lemma threshold_pixel:
  assumes "0 \<le> ct"
  shows "(if int_trunc (ct * 255) < uint (if p \<le> q then q - p else p - q :: 8 word) then 255 else 0 :: 8 word)
       = (if ct * 255 < \<bar>real (unat p) - real (unat q)\<bar> then 255 else 0)"
proof -
  have nn: "0 \<le> ct * 255" using assms by simp
  show ?thesis
    by (simp only: int_trunc_threshold [OF nn] absdiff_real)
qed

lemma threshold_survivors:
  assumes "0 \<le> ct" "shape a = shape b" "length (elems a) = length (elems b)"
  shows "absdiff a b = Inr d \<Longrightarrow>
         threshold_binary d (int_trunc (ct * 255)) 255 =
           NDArray (shape a)
             (map (\<lambda>(p, q). if ct * 255 < \<bar>real (unat p) - real (unat q)\<bar> then 255 else 0)
                (zip (elems a) (elems b)))"
proof -
  assume "absdiff a b = Inr d"
  then have d: "d = NDArray (shape a)
                  (map (\<lambda>(p, q). if p \<le> q then q - p else p - q) (zip (elems a) (elems b)))"
    using assms(2,3) by (simp add: absdiff_def)
  have "map (\<lambda>v. if int_trunc (ct * 255) < uint v then 255 else 0 :: 8 word)
          (map (\<lambda>(p, q). if p \<le> q then q - p else p - q) (zip (elems a) (elems b)))
        = map (\<lambda>(p, q). if ct * 255 < \<bar>real (unat p) - real (unat q)\<bar> then 255 else 0)
            (zip (elems a) (elems b))"
    unfolding map_map comp_def split_beta
    by (rule map_cong [OF refl]) (rule threshold_pixel [OF assms(1)])
  then show ?thesis
    unfolding d threshold_binary_def by (simp only: ndarray.sel)
qed


lemma confirm_match_refines:
  assumes "0 \<le> confirm_threshold mp"
  shows "confirm_match cv img region template mp = confirm_spec cv img region template mp"
proof (cases "confirm_method mp = ''none''")
  case True
  then show ?thesis by (simp add: confirm_match_def confirm_spec_def)
next
  case False
  define cropped where "cropped = crop2d img (region_y region, region_bottom region)
                        (region_x region, region_right region)"
  define rescale where "rescale = (if confirm_method mp = ''normed-absdiff''
                       then normalize_MINMAX cv else (\<lambda>a. a))"
  define a where "a = rescale (cvtColor_BGR2GRAY cv cropped)"
  define b where "b = rescale (cvtColor_BGR2GRAY cv template)"
  have cm: "confirm_match cv img region template mp =
     (case absdiff a b of
        Inl e \<Rightarrow> Inl e
      | Inr d \<Rightarrow>
          Inr (countNonZero (erode (threshold_binary d (int_trunc (confirm_threshold mp * 255)) 255)
                 MORPH_ELLIPSE_3x3 (erode_passes mp)) = 0))"
    using False unfolding confirm_match_def Let_def a_def b_def rescale_def cropped_def
    by (cases "confirm_method mp = ''normed-absdiff''") simp_all
  have cs: "confirm_spec cv img region template mp =
     (if shape a \<noteq> shape b \<or> length (elems a) \<noteq> length (elems b) then Inl CvError
      else Inr (list_all (\<lambda>v. v = 0)
             (elems ((erode1 MORPH_ELLIPSE_3x3 ^^ erode_passes mp)
                (NDArray (shape a)
                   (map (\<lambda>(p, q). if confirm_threshold mp * 255 < \<bar>real (unat p) - real (unat q)\<bar>
                                    then 255 else 0)
                      (zip (elems a) (elems b))))))))"
    using False unfolding confirm_spec_def Let_def a_def b_def rescale_def cropped_def
    by (simp only: if_False)
  show ?thesis
  proof (cases "shape a \<noteq> shape b \<or> length (elems a) \<noteq> length (elems b)")
    case True
    then have "absdiff a b = Inl CvError" by (simp add: absdiff_def)
    then show ?thesis using True by (simp only: cm cs sum.case if_True)
  next
    case False
    then have sh: "shape a = shape b" "length (elems a) = length (elems b)" by simp_all
    obtain d where d: "absdiff a b = Inr d" using sh by (simp add: absdiff_def)
    note t = threshold_survivors [OF assms sh d]
    show ?thesis
      using False by (simp only: cm cs d sum.case if_False t erode_def count_zero)
  qed
qed

text \<open>
  C7: with the method "none" the confirmation returns true whatever the inputs;
  otherwise, for a confirmation threshold that is not negative, \<open>confirm_match\<close>
  computes what the specification words: crop, intensities (each rescaled for
  "normed-absdiff"), the absolute difference compared with the threshold times 255, the
  erosions, and confirmation exactly when no pixel is left.
\<close>

theorem confirm_match_as_specified:
  assumes "0 \<le> confirm_threshold mp"
  shows "confirm_match cv img region template mp = confirm_spec cv img region template mp
       \<and> (confirm_method mp = ''none'' \<longrightarrow> confirm_match cv img region template mp = Inr True)"
  using confirm_match_refines [OF assms] by (simp add: confirm_spec_def)

theorem confirm_match_as_specified_witness:
  "0 \<le> confirm_threshold mp_absdiff
   \<and> confirm_match (cv2_with heatmap3) frame3 (Region 1 0 1 1) (pixel 250) mp_absdiff = Inr False
   \<and> confirm_spec (cv2_with heatmap3) frame3 (Region 1 0 1 1) (pixel 250) mp_absdiff = Inr False
   \<and> confirm_match (cv2_with heatmap3) frame3 (Region 0 0 1 1) (pixel 250) mp_absdiff = Inr True
   \<and> confirm_spec (cv2_with heatmap3) frame3 (Region 0 0 1 1) (pixel 250) mp_absdiff = Inr True"
proof -
  have h: "0 \<le> confirm_threshold mp_absdiff" by (simp add: mp_absdiff_def)
  show ?thesis
    using h confirm3_0 confirm3_2
      confirm_match_as_specified [OF h, of "cv2_with heatmap3" frame3 "Region 1 0 1 1" "pixel 250"]
      confirm_match_as_specified [OF h, of "cv2_with heatmap3" frame3 "Region 0 0 1 1" "pixel 250"]
    by simp
qed

section \<open>Properties of the region-of-interest fallback\<close>

lemma pyr_up_small: "any_lt 3 (pyr_up_shape sh) \<Longrightarrow> any_lt 3 sh"
  by (cases sh rule: pyr_up_shape.cases) (auto simp: any_lt_def)

lemma upsample_roi_None: "(upsample_roi cv (Some m) = None) = any_lt 3 (shape m)"
  by (simp add: upsample_roi_def)

lemma search_levels_roi:
  assumes "upsample_roi cv roi = upsample_roi cv roi'"
  shows "search_levels cv mp method ip tp roi lv = search_levels cv mp method ip tp roi' lv"
  using assms by (cases lv) simp_all

text \<open>
  C5: when the region-of-interest mask, upsampled, would be smaller than 3 pixels in a
  dimension, the level is searched with no mask, that is over the whole image: the
  pyramid search goes on exactly as it does from no mask at all. The code makes the
  test on the mask before upsampling it, so it falls back exactly when the mask itself
  has a dimension below 3, which covers every mask whose upsampling would be that
  small.
\<close>

theorem small_roi_searches_whole_image:
  assumes "cv2_sizes cv" and "any_lt 3 (shape (pyrUp cv roi_mask))"
  shows "upsample_roi cv (Some roi_mask) = None
       \<and> match_template cv img template method (upsample_roi cv (Some roi_mask))
           = match_template cv img template method None
       \<and> search_levels cv mp method image_pyramid template_pyramid (Some roi_mask) levels
           = search_levels cv mp method image_pyramid template_pyramid None levels
       \<and> (upsample_roi cv (Some roi_mask) = None) = any_lt 3 (shape roi_mask)"
proof -
  have "any_lt 3 (shape roi_mask)"
    using assms by (simp add: cv2_sizes_def pyr_up_small)
  then have n: "upsample_roi cv (Some roi_mask) = None" by (simp add: upsample_roi_def)
  then have "upsample_roi cv (Some roi_mask) = upsample_roi cv None"
    by (simp add: upsample_roi_def)
  then show ?thesis using n search_levels_roi upsample_roi_None by metis
qed

theorem small_roi_searches_whole_image_witness:
  "cv2_sizes cv2_blank \<and> any_lt 3 (shape (pyrUp cv2_blank (blank [1, 5])))
   \<and> upsample_roi cv2_blank (Some (blank [1, 5])) = None
   \<and> match_template cv2_blank (blank [4, 7, 3]) (blank [2, 3, 3]) TM_SQDIFF_NORMED
        (upsample_roi cv2_blank (Some (blank [1, 5])))
      = Inr (NDArray [3, 5] (replicate 15 0))"
proof -
  have a: "any_lt 3 (shape (pyrUp cv2_blank (blank [1, 5])))"
    by (simp add: cv2_blank_def blank_def any_lt_def)
  have m: "match_template cv2_blank (blank [4, 7, 3]) (blank [2, 3, 3]) TM_SQDIFF_NORMED None
      = Inr (NDArray [3, 5] (replicate 15 0))"
    by code_simp
  show ?thesis
    using small_roi_searches_whole_image [OF cv2_sizes_blank a,
        of "blank [4, 7, 3]" "blank [2, 3, 3]" TM_SQDIFF_NORMED] a m cv2_sizes_blank
    by simp
qed

section \<open>Properties of the public search\<close>

lemma find_matches_shape:
  assumes "find_matches cv levels img template mp = Some r"
  shows "run_shape r"
proof (cases "accepted img template")
  case True
  show ?thesis
  proof (cases "candidates_start cv levels img template mp")
    case (Inl e)
    then show ?thesis using assms accepted_find_matches [OF True, of cv levels mp]
      by (auto simp: run_shape_def)
  next
    case (Inr c)
    then have "find_matches_loop cv img template mp c = Some r"
      using assms accepted_find_matches [OF True, of cv levels mp] by simp
    then show ?thesis by (rule loop_shape)
  qed
next
  case False
  then have "\<exists>e. r = Run [] (Some e)"
    using assms unfolding find_matches_def accepted_def dims_ge_def
    by (auto split: if_splits simp: not_less not_le)
  then show ?thesis by (auto simp: run_shape_def)
qed

lemma match_all_loop_all:
  "list_all result_match xs \<Longrightarrow> match_all_loop xs e = Run xs e"
  by (induction xs) (simp_all add: run_cons_def)

lemma match_all_loop_prefix:
  "list_all result_match xs \<Longrightarrow> \<not> result_match x \<Longrightarrow>
   match_all_loop (xs @ x # ys) e = Run xs None"
  by (induction xs) (simp_all add: run_cons_def)

lemma match_all_loop_yields:
  "yielded (match_all_loop xs e) = takeWhile result_match xs"
  by (induction xs) (simp_all add: run_cons_def)

lemma inner_shape:
  assumes "match_all_inner cv levels fr template mp rg = Some r"
  shows "list_all result_match (butlast (yielded r))
       \<and> (case raised r of
            None \<Rightarrow> yielded r \<noteq> [] \<and> \<not> result_match (last (yielded r))
          | Some e \<Rightarrow> list_all result_match (yielded r))"
proof (cases "intersect (Some (image_region (frame_pixels fr))) (Some rg)")
  case None
  then show ?thesis using assms by (auto simp: match_all_inner_def)
next
  case (Some rg')
  show ?thesis
  proof (cases "crop (frame_pixels fr) (Some rg')")
    case (Inl e)
    then show ?thesis using assms Some by (auto simp: match_all_inner_def)
  next
    case (Inr cropped)
    then obtain r0 where r0: "find_matches cv levels cropped template mp = Some r0"
      and r: "r = Run (map (to_match_result fr template rg') (yielded r0)) (raised r0)"
      using assms Some by (auto simp: match_all_inner_def split: Option.bind_splits)
    have sh: "run_shape r0" by (rule find_matches_shape [OF r0])
    have m: "result_match (to_match_result fr template rg' f) = matched f" for f
      by (simp add: to_match_result_def)
    have la: "list_all result_match (map (to_match_result fr template rg') fs) = list_all matched fs" for fs
      by (simp add: list_all_iff m)
    show ?thesis
      using sh unfolding r run_shape_def
      by (cases "raised r0") (simp_all add: la m last_map map_butlast [symmetric])
  qed
qed


text \<open>
  C10: whenever the underlying search (\<^verbatim>\<open>_match_all\<close>) finishes, \<^verbatim>\<open>match_all\<close> finishes
  too, and it yields exactly the truthy results of the underlying search, in order;
  when the underlying search ended without an exception, its last result is the falsey
  one, and \<^verbatim>\<open>match_all\<close> yields all results but that one (none at all when the
  template is found nowhere).
\<close>

theorem match_all_yields_the_matches:
  assumes "match_all_inner cv levels fr template mp rg = Some r"
  shows "\<exists>out. match_all cv levels fr template mp rg = Some out
       \<and> yielded out = filter result_match (yielded r)
       \<and> list_all result_match (yielded out)
       \<and> (raised r = None \<longrightarrow>
            yielded r \<noteq> [] \<and> \<not> result_match (last (yielded r))
            \<and> yielded out = butlast (yielded r) \<and> raised out = None)"
proof -
  let ?out = "match_all_loop (yielded r) (raised r)"
  have eq: "match_all cv levels fr template mp rg = Some ?out"
    using assms by (simp add: match_all_def)
  note sh = inner_shape [OF assms]
  show ?thesis
  proof (cases "raised r")
    case (Some e)
    then have all: "list_all result_match (yielded r)" using sh by simp
    then have "?out = Run (yielded r) (raised r)" by (rule match_all_loop_all)
    moreover have "filter result_match (yielded r) = yielded r"
      using all by (simp add: list_all_iff)
    ultimately show ?thesis using eq all Some by simp
  next
    case None
    then have ne: "yielded r \<noteq> []" and nl: "\<not> result_match (last (yielded r))"
      and bl: "list_all result_match (butlast (yielded r))"
      using sh by simp_all
    have split: "yielded r = butlast (yielded r) @ last (yielded r) # []"
      using ne by simp
    have "?out = Run (butlast (yielded r)) None"
      using match_all_loop_prefix [OF bl nl, of "[]" "raised r"] split by simp
    moreover have "filter result_match (yielded r) = butlast (yielded r)"
    proof -
      have "filter result_match (butlast (yielded r) @ [last (yielded r)]) = butlast (yielded r)"
        using bl nl by (simp add: list_all_iff)
      then show ?thesis using split by simp
    qed
    ultimately show ?thesis using eq bl ne nl None by simp
  qed
qed


lemma crop3: "crop frame3 (intersect (Some (image_region frame3)) (Some Region_ALL)) = Inr frame3"
  by code_simp

lemma inner3:
  "match_all_inner (cv2_with heatmap3) 1 frame3_at (pixel 250) mp_absdiff Region_ALL
   = Some (Run (map (to_match_result frame3_at (pixel 250) (Region 0 0 3 1))
       [\<lparr> matched = True, found_region = Region 0 0 1 1,
           first_pass_matched = True, first_pass_certainty = 1 \<rparr>,
        \<lparr> matched = True, found_region = Region 2 0 1 1,
           first_pass_matched = True, first_pass_certainty = 1 \<rparr>,
        \<lparr> matched = False, found_region = Region 1 0 1 1,
           first_pass_matched = True, first_pass_certainty = 95 / 100 \<rparr>]) None)"
proof -
  have i: "intersect (Some (image_region frame3)) (Some Region_ALL) = Some (Region 0 0 3 1)"
    by code_simp
  have c: "crop frame3 (Some (Region 0 0 3 1)) = Inr frame3" using crop3 i by simp
  show ?thesis
    by (simp add: match_all_inner_def frame3_at_def i c run3 del: crop.simps)
qed

theorem match_all_yields_the_matches_witness:
  "(\<exists>r. match_all_inner (cv2_with heatmap3) 1 frame3_at (pixel 250) mp_absdiff Region_ALL = Some r
      \<and> map result_match (yielded r) = [True, True, False])
   \<and> (\<exists>out. match_all (cv2_with heatmap3) 1 frame3_at (pixel 250) mp_absdiff Region_ALL = Some out
      \<and> map result_match (yielded out) = [True, True]
      \<and> map result_region (yielded out) = [Region 0 0 1 1, Region 2 0 1 1]
      \<and> raised out = None)"
proof -
  from match_all_yields_the_matches [OF inner3]
  obtain out where
    "match_all (cv2_with heatmap3) 1 frame3_at (pixel 250) mp_absdiff Region_ALL = Some out"
    and "yielded out = filter result_match (map (to_match_result frame3_at (pixel 250) (Region 0 0 3 1))
       [\<lparr> matched = True, found_region = Region 0 0 1 1,
           first_pass_matched = True, first_pass_certainty = 1 \<rparr>,
        \<lparr> matched = True, found_region = Region 2 0 1 1,
           first_pass_matched = True, first_pass_certainty = 1 \<rparr>,
        \<lparr> matched = False, found_region = Region 1 0 1 1,
           first_pass_matched = True, first_pass_certainty = 95 / 100 \<rparr>])"
    and "raised out = None"
    by auto
  then have "\<exists>out. match_all (cv2_with heatmap3) 1 frame3_at (pixel 250) mp_absdiff Region_ALL = Some out
      \<and> map result_match (yielded out) = [True, True]
      \<and> map result_region (yielded out) = [Region 0 0 1 1, Region 2 0 1 1]
      \<and> raised out = None"
    by (intro exI [where x = out]) (simp add: to_match_result_def)
  moreover have "\<exists>r. match_all_inner (cv2_with heatmap3) 1 frame3_at (pixel 250) mp_absdiff Region_ALL = Some r
      \<and> map result_match (yielded r) = [True, True, False]"
    using inner3 by (simp add: to_match_result_def)
  ultimately show ?thesis by simp
qed

section \<open>Properties of masks\<close>

lemma memo_hit_Some: "memo_hit memo sh = Some a \<longleftrightarrow> memo = Some a \<and> shape a = sh"
  by (auto simp: memo_hit_def split: option.splits)

lemma to_array_coverage:
  "memo_ok ld m \<Longrightarrow> fst (to_array ld m sh) = coverage ld m sh"
proof (induction ld m sh rule: to_array.induct)
  case (1 ld im bo rg invert memo sh)
  show ?case
  proof (cases "memo_hit memo sh")
    case None
    then show ?thesis by (simp add: Let_def split: sum.splits)
  next
    case (Some a)
    then have "memo = Some a" "shape a = sh" by (simp_all add: memo_hit_Some)
    then show ?thesis using 1 Some by simp
  qed
next
  case (2 ld opr l r rg invert memo sh)
  show ?case
  proof (cases "memo_hit memo sh")
    case (Some a)
    then have "memo = Some a" "shape a = sh" by (simp_all add: memo_hit_Some)
    then show ?thesis using "2.prems" Some by simp
  next
    case None
    show ?thesis
    proof (cases "opr \<noteq> ''+'' \<and> opr \<noteq> ''-''")
      case True
      then show ?thesis using None by simp
    next
      case False
      have ml: "memo_ok ld l" and mr: "memo_ok ld r" using "2.prems" by simp_all
      have l: "fst (to_array ld l sh) = coverage ld l sh"
        using "2.IH"(1) [OF None False ml] .
      obtain lres l' where tl: "to_array ld l sh = (lres, l')" by (cases "to_array ld l sh")
      have cl: "coverage ld l sh = lres" using l tl by simp
      have opr: "opr = ''+'' \<or> opr = ''-''" using False by simp
      show ?thesis
      proof (cases lres)
        case (Inl e)
        have "coverage ld l sh = Inl e" using cl Inl by simp
        moreover have "to_array ld l sh = (Inl e, l')" using tl Inl by simp
        ultimately show ?thesis using None opr by auto
      next
        case (Inr la)
        have r: "fst (to_array ld r sh) = coverage ld r sh"
          using "2.IH"(2) [OF None False tl [symmetric] Inr mr] .
        obtain rres r' where tr: "to_array ld r sh = (rres, r')" by (cases "to_array ld r sh")
        have cr: "coverage ld r sh = rres" using r tr by simp
        have c1: "coverage ld l sh = Inr la" using cl Inr by simp
        have t1: "to_array ld l sh = (Inr la, l')" using tl Inr by simp
        show ?thesis
        proof (cases rres)
          case (Inl e)
          have "coverage ld r sh = Inl e" using cr Inl by simp
          moreover have "to_array ld r sh = (Inl e, r')" using tr Inl by simp
          ultimately show ?thesis using None opr c1 t1 by auto
        next
          case (Inr ra)
          have c2: "coverage ld r sh = Inr ra" using cr Inr by simp
          have t2: "to_array ld r sh = (Inr ra, r')" using tr Inr by simp
          show ?thesis
            using None opr c1 t1 c2 t2 by (auto simp: Let_def split: sum.splits)
        qed
      qed
    qed
  qed
next
  case (3 ld rg invert memo sh)
  show ?case
  proof (cases "memo_hit memo sh")
    case None
    then show ?thesis by (simp add: Let_def split: sum.splits)
  next
    case (Some a)
    then have "memo = Some a" "shape a = sh" by (simp_all add: memo_hit_Some)
    then show ?thesis using 3 Some by simp
  qed
qed


lemma coverage_memo:
  "coverage ld (Mask im bo rg invert memo) sh = coverage ld (Mask im bo rg invert None) sh"
proof (cases im)
  case (Some i)
  then show ?thesis by simp
next
  case None
  show ?thesis
  proof (cases bo)
    case (Some b)
    then show ?thesis using None by (cases b) simp
  next
    case n: None
    then show ?thesis using None by simp
  qed
qed

lemma memo_ok_reset:
  "memo_ok ld (Mask im bo rg invert memo) \<Longrightarrow> memo_ok ld (Mask im bo rg invert' None)"
proof (cases im)
  case (Some i)
  then show ?thesis by simp
next
  case None
  assume ok: "memo_ok ld (Mask im bo rg invert memo)"
  show ?thesis
  proof (cases bo)
    case (Some b)
    then show ?thesis using None ok by (cases b) simp
  next
    case n: None
    then show ?thesis using None by simp
  qed
qed

lemma numpy_invert_invert: "numpy_invert (numpy_invert a) = a"
  by (cases a) (simp add: numpy_invert_def comp_def)

lemma coverage_flip:
  "coverage ld (Mask im bo rg (\<not> invert) memo) sh =
     (case coverage ld (Mask im bo rg invert memo) sh of
        Inl e \<Rightarrow> Inl e | Inr a \<Rightarrow> Inr (numpy_invert a))"
proof (cases im)
  case (Some i)
  then show ?thesis by (simp add: numpy_invert_invert split: sum.splits)
next
  case None
  show ?thesis
  proof (cases bo)
    case (Some b)
    then show ?thesis using None
      by (cases b) (simp add: numpy_invert_invert split: sum.splits)
  next
    case n: None
    then show ?thesis using None by (simp add: numpy_invert_invert split: sum.splits)
  qed
qed

lemma coverage_binop:
  assumes "opr = ''+'' \<or> opr = ''-''"
    and "coverage ld a sh = Inr x" and "coverage ld b sh = Inr y"
  shows "coverage ld (Mask None (Some (BinOp opr a b)) None False None) sh =
           (if opr = ''+'' then numpy_or x y else numpy_and x (numpy_invert y))"
  using assms by (auto split: sum.splits)

text \<open>
  C4: for every requested shape, and masks \<open>a\<close> and \<open>b\<close> that rasterise to the coverage
  buffers \<open>x\<close> and \<open>y\<close>, the mask \<open>a + b\<close> rasterises to the bitwise OR of \<open>x\<close> and \<open>y\<close>,
  the mask \<open>a - b\<close> to the bitwise AND of \<open>x\<close> with the complement of \<open>y\<close>, and the
  inverted mask to the complement of \<open>x\<close>. The masks are arbitrary (images, regions,
  also of zero area, and combinations), with whatever arrays they have memoised from
  earlier calls.
\<close>

theorem mask_operators_rasterise:
  assumes "memo_ok ld a" and "memo_ok ld b"
    and "fst (to_array ld a sh) = Inr x" and "fst (to_array ld b sh) = Inr y"
  shows "(\<exists>m. mask_add a (ArgMask b) = Inr m \<and> fst (to_array ld m sh) = numpy_or x y) \<and>
         (\<exists>m. mask_sub a (ArgMask b) = Inr m \<and>
               fst (to_array ld m sh) = numpy_and x (numpy_invert y)) \<and>
         (\<exists>m. mask_inverted a = Inr m \<and> fst (to_array ld m sh) = Inr (numpy_invert x))"
proof -
  obtain im bo rg iv memo where b: "b = Mask im bo rg iv memo" by (cases b)
  obtain im' bo' rg' iv' memo' where a: "a = Mask im' bo' rg' iv' memo'" by (cases a)
  define b' where "b' = Mask im bo rg iv None"
  have ca: "coverage ld a sh = Inr x" using assms(1,3) by (simp add: to_array_coverage)
  have cb: "coverage ld b sh = Inr y" using assms(2,4) by (simp add: to_array_coverage)
  have cb': "coverage ld b' sh = Inr y"
    using cb coverage_memo [of ld im bo rg iv memo sh] by (simp add: b b'_def)
  have okb': "memo_ok ld b'" using assms(2) unfolding b b'_def by (rule memo_ok_reset)
  have ok: "memo_ok ld (Mask None (Some (BinOp opr a b')) None False None)" for opr
    using assms(1) okb' by simp
  have add: "mask_add a (ArgMask b) = Inr (Mask None (Some (BinOp ''+'' a b')) None False None)"
    by (simp add: mask_add_def mask_binary_def b b'_def)
  have sub: "mask_sub a (ArgMask b) = Inr (Mask None (Some (BinOp ''-'' a b')) None False None)"
    by (simp add: mask_sub_def mask_binary_def b b'_def)
  have inv: "mask_inverted a = Inr (Mask im' bo' rg' (\<not> iv') None)"
    by (simp add: mask_inverted_def a)
  have 1: "fst (to_array ld (Mask None (Some (BinOp ''+'' a b')) None False None) sh) = numpy_or x y"
    using coverage_binop [of "''+''" ld a sh x b' y] ca cb'
    by (simp only: to_array_coverage [OF ok]) simp
  have 2: "fst (to_array ld (Mask None (Some (BinOp ''-'' a b')) None False None) sh) =
             numpy_and x (numpy_invert y)"
    using coverage_binop [of "''-''" ld a sh x b' y] ca cb'
    by (simp only: to_array_coverage [OF ok]) simp
  have ok3: "memo_ok ld (Mask im' bo' rg' (\<not> iv') None)"
    using assms(1) unfolding a by (rule memo_ok_reset)
  have "coverage ld (Mask im' bo' rg' (\<not> iv') None) sh = Inr (numpy_invert x)"
    using ca coverage_memo [of ld im' bo' rg' iv' memo' sh]
    by (simp add: coverage_flip a)
  then have 3: "fst (to_array ld (Mask im' bo' rg' (\<not> iv') None) sh) = Inr (numpy_invert x)"
    by (simp only: to_array_coverage [OF ok3])
  show ?thesis using add sub inv 1 2 3 by simp
qed


theorem mask_operators_rasterise_witness:
  "memo_ok spread_channels (Mask None None (Some (Region 1 0 2 5)) False None)
   \<and> memo_ok spread_channels (Mask None None (Some (Region 3 1 0 0)) False None)
   \<and> fst (to_array spread_channels (Mask None None (Some (Region 1 0 2 5)) False None) [2, 4, 1])
       = Inr (NDArray [2, 4, 1] [0, 255, 255, 0, 0, 255, 255, 0])
   \<and> fst (to_array spread_channels (Mask None None (Some (Region 3 1 0 0)) False None) [2, 4, 1])
       = Inr (NDArray [2, 4, 1] [0, 0, 0, 0, 0, 0, 0, 0])
   \<and> fst (to_array spread_channels
            (Mask None
               (Some (BinOp ''-'' (Mask None None (Some (Region 1 0 2 5)) False None)
                        (Mask None None (Some (Region 3 1 0 0)) False None)))
               None False None) [2, 4, 1])
       = Inr (NDArray [2, 4, 1] [0, 255, 255, 0, 0, 255, 255, 0])
   \<and> fst (to_array spread_channels (Mask None None (Some (Region 1 0 2 5)) True None) [2, 4, 1])
       = Inr (NDArray [2, 4, 1] [255, 0, 0, 255, 255, 0, 0, 255])"
proof -
  have x: "fst (to_array spread_channels (Mask None None (Some (Region 1 0 2 5)) False None)
             [2, 4, 1]) = Inr (NDArray [2, 4, 1] [0, 255, 255, 0, 0, 255, 255, 0])"
    by code_simp
  have y: "fst (to_array spread_channels (Mask None None (Some (Region 3 1 0 0)) False None)
             [2, 4, 1]) = Inr (NDArray [2, 4, 1] [0, 0, 0, 0, 0, 0, 0, 0])"
    by code_simp
  have s: "numpy_and (NDArray [2, 4, 1] [0, 255, 255, 0, 0, 255, 255, 0])
             (numpy_invert (NDArray [2, 4, 1] [0, 0, 0, 0, 0, 0, 0, 0]))
           = Inr (NDArray [2, 4, 1] [0, 255, 255, 0, 0, 255, 255, 0])"
    by code_simp
  have i: "numpy_invert (NDArray [2, 4, 1] [0, 255, 255, 0, 0, 255, 255, 0])
           = NDArray [2, 4, 1] [255, 0, 0, 255, 255, 0, 0, 255]"
    by code_simp
  have oka: "memo_ok spread_channels (Mask None None (Some (Region 1 0 2 5)) False None)"
    by simp
  have okb: "memo_ok spread_channels (Mask None None (Some (Region 3 1 0 0)) False None)"
    by simp
  note t = mask_operators_rasterise [OF oka okb x y]
  have ms: "mask_sub (Mask None None (Some (Region 1 0 2 5)) False None)
              (ArgMask (Mask None None (Some (Region 3 1 0 0)) False None))
            = Inr (Mask None
               (Some (BinOp ''-'' (Mask None None (Some (Region 1 0 2 5)) False None)
                        (Mask None None (Some (Region 3 1 0 0)) False None)))
               None False None)"
    by (simp add: mask_sub_def mask_binary_def)
  have mi: "mask_inverted (Mask None None (Some (Region 1 0 2 5)) False None)
            = Inr (Mask None None (Some (Region 1 0 2 5)) True None)"
    by (simp add: mask_inverted_def)
  from t obtain m where "mask_sub (Mask None None (Some (Region 1 0 2 5)) False None)
              (ArgMask (Mask None None (Some (Region 3 1 0 0)) False None)) = Inr m"
    and m: "fst (to_array spread_channels m [2, 4, 1])
            = numpy_and (NDArray [2, 4, 1] [0, 255, 255, 0, 0, 255, 255, 0])
                (numpy_invert (NDArray [2, 4, 1] [0, 0, 0, 0, 0, 0, 0, 0]))"
    by blast
  with ms have "m = Mask None
               (Some (BinOp ''-'' (Mask None None (Some (Region 1 0 2 5)) False None)
                        (Mask None None (Some (Region 3 1 0 0)) False None)))
               None False None" by simp
  with m s have 1: "fst (to_array spread_channels
            (Mask None
               (Some (BinOp ''-'' (Mask None None (Some (Region 1 0 2 5)) False None)
                        (Mask None None (Some (Region 3 1 0 0)) False None)))
               None False None) [2, 4, 1])
       = Inr (NDArray [2, 4, 1] [0, 255, 255, 0, 0, 255, 255, 0])"
    by (simp only:)
  from t obtain n where "mask_inverted (Mask None None (Some (Region 1 0 2 5)) False None) = Inr n"
    and n: "fst (to_array spread_channels n [2, 4, 1])
            = Inr (numpy_invert (NDArray [2, 4, 1] [0, 255, 255, 0, 0, 255, 255, 0]))"
    by blast
  with mi have "n = Mask None None (Some (Region 1 0 2 5)) True None" by simp
  with n i have 2: "fst (to_array spread_channels
            (Mask None None (Some (Region 1 0 2 5)) True None) [2, 4, 1])
       = Inr (NDArray [2, 4, 1] [255, 0, 0, 255, 255, 0, 0, 255])"
    by (simp only:)
  show ?thesis using oka okb x y 1 2 by (simp only: simp_thms)
qed

section \<open>Properties of region intersection\<close>










end
